theory Spec2Isabelle
  imports Complex_Main "HOL-Library.AList" "HOL-Library.Sublist"
begin

section \<open>Radar-waveform classification notebooks: a shallow embedding\<close>

text \<open>
  The notebooks \<^verbatim>\<open>STFT-CNN.ipynb\<close> and \<^verbatim>\<open>LDC-Unet.ipynb\<close> (the latter file also
  carries the CWD-TFA notebook) assemble PyTorch, NumPy, OpenCV and scikit-learn calls.
  Python exceptions are values of \<open>error\<close>; a function that may raise returns
  \<open>error + 'a\<close> with \<open>Inl\<close> for the exception.
\<close>

datatype error =
    TypeError string
  | ValueError
  | IndexError
  | AssertionError
  | RuntimeError
  | ZeroDivisionError
  | KeyError
  | OSError

definition and_then :: "error + 'a \<Rightarrow> ('a \<Rightarrow> error + 'b) \<Rightarrow> error + 'b" where
  "and_then r f = (case r of Inl e \<Rightarrow> Inl e | Inr x \<Rightarrow> f x)"

section \<open>Tensor shapes and the framework layers\<close>

text \<open>
  A forward pass is followed on the shape of the tensor: the list of its dimension sizes.
  Each layer of \<^verbatim>\<open>torch.nn\<close> is the function on shapes that the PyTorch documentation
  gives for it, and raises \<open>RuntimeError\<close> where the layer rejects its input (wrong
  number of channels, a kernel larger than the padded input, tensors whose sizes do not
  agree).
\<close>

type_synonym shape = "nat list"

record conv2d =
  in_channels :: nat
  out_channels :: nat
  kernel_size :: "nat \<times> nat"
  stride :: nat
  padding :: nat

record pool2d =
  pool_kernel :: "nat \<times> nat"
  pool_stride :: nat

record linear =
  in_features :: nat
  out_features :: nat

text \<open>Output size of a sliding window: \<open>floor ((h + 2 p - k) / s) + 1\<close>.\<close>

definition window_out :: "nat \<Rightarrow> nat \<Rightarrow> nat \<Rightarrow> nat \<Rightarrow> nat" where
  "window_out h k s p = (h + 2 * p - k) div s + 1"

definition window_fits :: "nat \<Rightarrow> nat \<Rightarrow> nat \<Rightarrow> nat \<Rightarrow> bool" where
  "window_fits h k s p = (0 < s \<and> 0 < k \<and> k \<le> h + 2 * p)"

definition conv_hw :: "conv2d \<Rightarrow> nat \<Rightarrow> nat \<Rightarrow> nat \<Rightarrow> error + shape" where
  "conv_hw c ch h w =
     (if ch \<noteq> in_channels c then Inl RuntimeError
      else if \<not> window_fits h (fst (kernel_size c)) (stride c) (padding c) then Inl RuntimeError
      else if \<not> window_fits w (snd (kernel_size c)) (stride c) (padding c) then Inl RuntimeError
      else Inr [out_channels c,
                window_out h (fst (kernel_size c)) (stride c) (padding c),
                window_out w (snd (kernel_size c)) (stride c) (padding c)])"

text \<open>\<^verbatim>\<open>nn.Conv2d\<close> takes a batch \<open>(N, C, H, W)\<close> or one image \<open>(C, H, W)\<close>.\<close>

fun Conv2d :: "conv2d \<Rightarrow> shape \<Rightarrow> error + shape" where
  "Conv2d c [n, ch, h, w] = and_then (conv_hw c ch h w) (\<lambda>s. Inr (n # s))"
| "Conv2d c [ch, h, w] = conv_hw c ch h w"
| "Conv2d c s = Inl RuntimeError"

definition pool_hw :: "pool2d \<Rightarrow> nat \<Rightarrow> nat \<Rightarrow> nat \<Rightarrow> error + shape" where
  "pool_hw p ch h w =
     (if \<not> window_fits h (fst (pool_kernel p)) (pool_stride p) 0 then Inl RuntimeError
      else if \<not> window_fits w (snd (pool_kernel p)) (pool_stride p) 0 then Inl RuntimeError
      else Inr [ch,
                window_out h (fst (pool_kernel p)) (pool_stride p) 0,
                window_out w (snd (pool_kernel p)) (pool_stride p) 0])"

text \<open>\<^verbatim>\<open>nn.AvgPool2d\<close> and \<^verbatim>\<open>nn.MaxPool2d\<close> (no padding) change the shape alike.\<close>

fun Pool2d :: "pool2d \<Rightarrow> shape \<Rightarrow> error + shape" where
  "Pool2d p [n, ch, h, w] = and_then (pool_hw p ch h w) (\<lambda>s. Inr (n # s))"
| "Pool2d p [ch, h, w] = pool_hw p ch h w"
| "Pool2d p s = Inl RuntimeError"

text \<open>\<^verbatim>\<open>nn.MaxPool2d(kernel_size=k)\<close>: the stride defaults to the kernel size.\<close>

definition MaxPool2d_k :: "nat \<Rightarrow> pool2d" where
  "MaxPool2d_k k = \<lparr>pool_kernel = (k, k), pool_stride = k\<rparr>"

text \<open>\<^verbatim>\<open>nn.ReLU\<close> works elementwise.\<close>

definition ReLU :: "shape \<Rightarrow> error + shape" where
  "ReLU s = Inr s"

text \<open>\<^verbatim>\<open>nn.Flatten()\<close> keeps dimension 0 and merges the others.\<close>

fun Flatten :: "shape \<Rightarrow> error + shape" where
  "Flatten [] = Inr [1]"
| "Flatten [n] = Inr [n]"
| "Flatten (n # ds) = Inr [n, prod_list ds]"

text \<open>\<^verbatim>\<open>nn.Linear\<close> acts on the last dimension, which must be \<open>in_features\<close>.\<close>

definition Linear :: "linear \<Rightarrow> shape \<Rightarrow> error + shape" where
  "Linear l s =
     (if s = [] then Inl RuntimeError
      else if last s \<noteq> in_features l then Inl RuntimeError
      else Inr (butlast s @ [out_features l]))"

text \<open>
  \<^verbatim>\<open>nn.Upsample(scale_factor=(a, b), mode='bilinear')\<close> needs a 4-D input and scales
  the two spatial sizes.
\<close>

fun Upsample :: "nat \<times> nat \<Rightarrow> shape \<Rightarrow> error + shape" where
  "Upsample (a, b) [n, ch, h, w] = Inr [n, ch, h * a, w * b]"
| "Upsample f s = Inl RuntimeError"

text \<open>
  Elementwise addition broadcasts: the shapes are aligned at their last dimensions, and
  two sizes agree when they are equal or one of them is 1.
\<close>

fun broadcast_rev :: "shape \<Rightarrow> shape \<Rightarrow> error + shape" where
  "broadcast_rev [] ys = Inr ys"
| "broadcast_rev xs [] = Inr xs"
| "broadcast_rev (x # xs) (y # ys) =
     (if x = y \<or> y = 1 then and_then (broadcast_rev xs ys) (\<lambda>r. Inr (x # r))
      else if x = 1 then and_then (broadcast_rev xs ys) (\<lambda>r. Inr (y # r))
      else Inl RuntimeError)"

definition tensor_add :: "shape \<Rightarrow> shape \<Rightarrow> error + shape" where
  "tensor_add a b = and_then (broadcast_rev (rev a) (rev b)) (\<lambda>r. Inr (rev r))"

text \<open>
  \<^verbatim>\<open>torch.cat(ts, dim=1)\<close>: every tensor has the sizes of the first one except in
  dimension 1, where the sizes add up.
\<close>

fun cat_dim1 :: "shape list \<Rightarrow> error + shape" where
  "cat_dim1 [] = Inl RuntimeError"
| "cat_dim1 [s] = (if length s < 2 then Inl IndexError else Inr s)"
| "cat_dim1 (s # t # ts) =
     and_then (cat_dim1 (t # ts)) (\<lambda>r.
       if length s < 2 then Inl IndexError
       else if length s \<noteq> length r then Inl RuntimeError
       else if hd s \<noteq> hd r \<or> drop 2 s \<noteq> drop 2 r then Inl RuntimeError
       else Inr (hd s # (s ! 1 + r ! 1) # drop 2 s))"

section \<open>STFT-CNN: \<^verbatim>\<open>MainModel\<close>\<close>

record MainModel =
  mm_conv1 :: conv2d
  mm_pool1 :: pool2d
  mm_conv2 :: conv2d
  mm_pool2 :: pool2d
  mm_fc :: linear

definition MainModel_init :: "nat \<Rightarrow> MainModel" where
  "MainModel_init num_classes =
     \<lparr>mm_conv1 = \<lparr>in_channels = 3, out_channels = 6, kernel_size = (5, 5), stride = 1, padding = 0\<rparr>,
      mm_pool1 = \<lparr>pool_kernel = (2, 2), pool_stride = 2\<rparr>,
      mm_conv2 = \<lparr>in_channels = 6, out_channels = 12, kernel_size = (5, 5), stride = 1, padding = 0\<rparr>,
      mm_pool2 = \<lparr>pool_kernel = (2, 2), pool_stride = 2\<rparr>,
      mm_fc = \<lparr>in_features = 588, out_features = num_classes\<rparr>\<rparr>"

text \<open>The part of \<^verbatim>\<open>forward\<close> before \<^verbatim>\<open>self.flat\<close>.\<close>

definition MainModel_features :: "MainModel \<Rightarrow> shape \<Rightarrow> error + shape" where
  "MainModel_features m x =
     and_then (Conv2d (mm_conv1 m) x) (\<lambda>x.
     and_then (ReLU x) (\<lambda>x.
     and_then (Pool2d (mm_pool1 m) x) (\<lambda>x.
     and_then (Conv2d (mm_conv2 m) x) (\<lambda>x.
     and_then (ReLU x) (\<lambda>x.
     Pool2d (mm_pool2 m) x)))))"

definition MainModel_forward :: "MainModel \<Rightarrow> shape \<Rightarrow> error + shape" where
  "MainModel_forward m x =
     and_then (MainModel_features m x) (\<lambda>x.
     and_then (Flatten x) (\<lambda>x.
     Linear (mm_fc m) x))"

section \<open>LDC-Unet: \<^verbatim>\<open>encoder\<close>, \<^verbatim>\<open>decoder\<close>, \<^verbatim>\<open>decoder_4\<close>, \<^verbatim>\<open>LDC_Unet\<close>\<close>

definition conv3x3 :: "nat \<Rightarrow> nat \<Rightarrow> nat \<Rightarrow> conv2d" where
  "conv3x3 cin cout s =
     \<lparr>in_channels = cin, out_channels = cout, kernel_size = (3, 3), stride = s, padding = 1\<rparr>"

record encoder =
  enc_conv1 :: conv2d
  enc_conv2 :: conv2d
  enc_conv3 :: conv2d

definition encoder_init :: "nat \<Rightarrow> nat \<Rightarrow> encoder" where
  "encoder_init cin cout =
     \<lparr>enc_conv1 = conv3x3 cin cout 2,
      enc_conv2 = conv3x3 cin cout 2,
      enc_conv3 = conv3x3 cout cout 1\<rparr>"

definition encoder_forward :: "encoder \<Rightarrow> shape \<Rightarrow> error + shape" where
  "encoder_forward e x =
     and_then (Conv2d (enc_conv1 e) x) (\<lambda>x1.
     and_then (ReLU x1) (\<lambda>x1.
     and_then (Conv2d (enc_conv2 e) x) (\<lambda>x2.
     and_then (ReLU x2) (\<lambda>x2.
     and_then (Conv2d (enc_conv3 e) x2) (\<lambda>x2.
     tensor_add x1 x2)))))"

record decoder =
  dec_pool1 :: pool2d
  dec_conv1 :: conv2d
  dec_conv2 :: conv2d
  dec_upsample1 :: "nat \<times> nat"
  dec_conv3 :: conv2d
  dec_upsample2 :: "nat \<times> nat"
  dec_conv4 :: conv2d

definition decoder_init :: "nat \<Rightarrow> nat \<Rightarrow> nat \<Rightarrow> nat \<Rightarrow> decoder" where
  "decoder_init c1 c2 c3 c4 =
     \<lparr>dec_pool1 = MaxPool2d_k 2,
      dec_conv1 = conv3x3 c1 64 1,
      dec_conv2 = conv3x3 c2 64 1,
      dec_upsample1 = (2, 2),
      dec_conv3 = conv3x3 c3 64 1,
      dec_upsample2 = (2, 2),
      dec_conv4 = conv3x3 c4 64 1\<rparr>"

definition decoder_forward ::
  "decoder \<Rightarrow> shape \<Rightarrow> shape \<Rightarrow> shape \<Rightarrow> shape \<Rightarrow> error + shape" where
  "decoder_forward d x1 x2 x3 x4 =
     and_then (Pool2d (dec_pool1 d) x1) (\<lambda>x1.
     and_then (Conv2d (dec_conv1 d) x1) (\<lambda>x1.
     and_then (Conv2d (dec_conv2 d) x2) (\<lambda>x2.
     and_then (Upsample (dec_upsample1 d) x3) (\<lambda>x3.
     and_then (Conv2d (dec_conv3 d) x3) (\<lambda>x3.
     and_then (Upsample (dec_upsample2 d) x4) (\<lambda>x4.
     and_then (Conv2d (dec_conv4 d) x4) (\<lambda>x4.
     cat_dim1 [x1, x2, x3, x4])))))))"

record decoder_4 =
  d4_pool1 :: pool2d
  d4_conv1 :: conv2d
  d4_conv2 :: conv2d
  d4_upsample1 :: "nat \<times> nat"
  d4_conv3 :: conv2d

definition decoder_4_init :: "nat \<Rightarrow> nat \<Rightarrow> nat \<Rightarrow> decoder_4" where
  "decoder_4_init c1 c2 c3 =
     \<lparr>d4_pool1 = MaxPool2d_k 2,
      d4_conv1 = conv3x3 c1 64 1,
      d4_conv2 = conv3x3 c2 64 1,
      d4_upsample1 = (2, 2),
      d4_conv3 = conv3x3 c3 64 1\<rparr>"

definition decoder_4_forward :: "decoder_4 \<Rightarrow> shape \<Rightarrow> shape \<Rightarrow> shape \<Rightarrow> error + shape" where
  "decoder_4_forward d x1 x2 x3 =
     and_then (Pool2d (d4_pool1 d) x1) (\<lambda>x1.
     and_then (Conv2d (d4_conv1 d) x1) (\<lambda>x1.
     and_then (Conv2d (d4_conv2 d) x2) (\<lambda>x2.
     and_then (Upsample (d4_upsample1 d) x3) (\<lambda>x3.
     and_then (Conv2d (d4_conv3 d) x3) (\<lambda>x3.
     cat_dim1 [x1, x2, x3])))))"

record LDC_Unet =
  e1 :: encoder
  e2 :: encoder
  e3 :: encoder
  e4 :: encoder
  e5 :: encoder
  d4 :: decoder_4
  d3 :: decoder
  d2 :: decoder
  d1 :: decoder
  unet_upsample :: "nat \<times> nat"
  unet_conv1 :: conv2d
  unet_conv2 :: conv2d

definition LDC_Unet_init :: LDC_Unet where
  "LDC_Unet_init =
     \<lparr>e1 = encoder_init 3 64,
      e2 = encoder_init 64 128,
      e3 = encoder_init 128 256,
      e4 = encoder_init 256 256,
      e5 = encoder_init 256 512,
      d4 = decoder_4_init 256 256 512,
      d3 = decoder_init 128 256 256 192,
      d2 = decoder_init 64 128 256 256,
      d1 = decoder_init 3 64 128 256,
      unet_upsample = (2, 2),
      unet_conv1 = conv3x3 256 64 1,
      unet_conv2 = conv3x3 64 3 1\<rparr>"

definition LDC_Unet_forward :: "LDC_Unet \<Rightarrow> shape \<Rightarrow> error + shape" where
  "LDC_Unet_forward u x =
     (let x0 = x in
      and_then (encoder_forward (e1 u) x0) (\<lambda>x_e1.
      and_then (encoder_forward (e2 u) x_e1) (\<lambda>x_e2.
      and_then (encoder_forward (e3 u) x_e2) (\<lambda>x_e3.
      and_then (encoder_forward (e4 u) x_e3) (\<lambda>x_e4.
      and_then (encoder_forward (e5 u) x_e4) (\<lambda>x_e5.
      and_then (decoder_4_forward (d4 u) x_e3 x_e4 x_e5) (\<lambda>x_d4.
      and_then (decoder_forward (d3 u) x_e2 x_e3 x_e4 x_d4) (\<lambda>x_d3.
      and_then (decoder_forward (d2 u) x_e1 x_e2 x_e3 x_d3) (\<lambda>x_d2.
      and_then (decoder_forward (d1 u) x0 x_e1 x_e2 x_d2) (\<lambda>x_d1.
      and_then (Upsample (unet_upsample u) x_d1) (\<lambda>x.
      and_then (Conv2d (unet_conv1 u) x) (\<lambda>x.
      Conv2d (unet_conv2 u) x))))))))))))"

section \<open>The training loops: \<^verbatim>\<open>train_model\<close>\<close>

text \<open>
  The three notebooks each define \<^verbatim>\<open>train_model\<close>. What the batches do to the model is
  the framework's work; the loop only reads \<^verbatim>\<open>loss.item()\<close> of every batch. The
  parameter \<open>batch_losses\<close> gives, for the epoch with index \<open>e\<close>, these values in the
  order of the batches of \<^verbatim>\<open>train_loader\<close>, so that \<^verbatim>\<open>len(train_loader)\<close> is the length
  of that list. Losses are real numbers; \<^verbatim>\<open>float("inf")\<close>, the first \<^verbatim>\<open>best_loss\<close>, is
  \<open>None\<close>. The scheduler is \<open>None\<close> or the number of times it has been stepped. Every
  \<^verbatim>\<open>torch.save\<close> is recorded with its file name and the epoch index.
\<close>

record train_state =
  loss_history :: "real list"
  best_loss :: "real option"
  patience_counter :: int
  scheduler :: "nat option"
  saved :: "(string \<times> nat) list"

text \<open>
  \<^verbatim>\<open>avg_loss = total_loss / len(train_loader)\<close>: \<open>total_loss\<close> starts at \<open>0.0\<close>
  and adds every batch loss; dividing a float by the integer 0 raises.
\<close>

definition epoch_avg_loss :: "real list \<Rightarrow> error + real" where
  "epoch_avg_loss ls =
     (let total_loss = foldl (+) 0 ls in
      if length ls = 0 then Inl ZeroDivisionError
      else Inr (total_loss / real (length ls)))"

text \<open>\<^verbatim>\<open>avg_loss < best_loss - min_delta\<close>.\<close>

definition improves :: "real \<Rightarrow> real option \<Rightarrow> real \<Rightarrow> bool" where
  "improves avg_loss best min_delta =
     (case best of None \<Rightarrow> True | Some b \<Rightarrow> avg_loss < b - min_delta)"

text \<open>
  \<^verbatim>\<open>if scheduler: scheduler.step()\<close>.
\<close>

definition scheduler_step :: "train_state \<Rightarrow> train_state" where
  "scheduler_step s = s\<lparr>scheduler := map_option Suc (scheduler s)\<rparr>"

text \<open>
  The loop of the STFT-CNN notebook over the epochs that are left; the loop of the CWD-TFA
  notebook differs only inside the batch step (gradient clipping).
\<close>

fun train_loop ::
  "(nat \<Rightarrow> real list) \<Rightarrow> int \<Rightarrow> real \<Rightarrow> nat list \<Rightarrow> train_state \<Rightarrow> error + train_state" where
  "train_loop batch_losses patience min_delta [] s = Inr s"
| "train_loop batch_losses patience min_delta (epoch # rest) s =
     (case epoch_avg_loss (batch_losses epoch) of
        Inl e \<Rightarrow> Inl e
      | Inr avg_loss \<Rightarrow>
          (let s = s\<lparr>loss_history := loss_history s @ [avg_loss]\<rparr>;
               s = scheduler_step s
           in if improves avg_loss (best_loss s) min_delta
              then train_loop batch_losses patience min_delta rest
                     (s\<lparr>best_loss := Some avg_loss, patience_counter := 0\<rparr>)
              else (let s = s\<lparr>patience_counter := patience_counter s + 1\<rparr>
                    in if patience_counter s \<ge> patience then Inr s
                       else train_loop batch_losses patience min_delta rest s)))"

text \<open>
  The loop of the LDC-Unet notebook: as above, with
  \<^verbatim>\<open>if epoch % 5: torch.save(model, model_file_name + ".pth")\<close> before the scheduler.
\<close>

fun train_loop_save ::
  "(nat \<Rightarrow> real list) \<Rightarrow> int \<Rightarrow> real \<Rightarrow> nat list \<Rightarrow> train_state \<Rightarrow> error + train_state" where
  "train_loop_save batch_losses patience min_delta [] s = Inr s"
| "train_loop_save batch_losses patience min_delta (epoch # rest) s =
     (case epoch_avg_loss (batch_losses epoch) of
        Inl e \<Rightarrow> Inl e
      | Inr avg_loss \<Rightarrow>
          (let s = s\<lparr>loss_history := loss_history s @ [avg_loss]\<rparr>;
               model_file_name = ''model_latest'';
               s = (if epoch mod 5 \<noteq> 0
                    then s\<lparr>saved := saved s @ [(model_file_name @ ''.pth'', epoch)]\<rparr>
                    else s);
               s = scheduler_step s
           in if improves avg_loss (best_loss s) min_delta
              then train_loop_save batch_losses patience min_delta rest
                     (s\<lparr>best_loss := Some avg_loss, patience_counter := 0\<rparr>)
              else (let s = s\<lparr>patience_counter := patience_counter s + 1\<rparr>
                    in if patience_counter s \<ge> patience then Inr s
                       else train_loop_save batch_losses patience min_delta rest s)))"

definition initial_state :: "nat option \<Rightarrow> train_state" where
  "initial_state sched =
     \<lparr>loss_history = [], best_loss = None, patience_counter = 0, scheduler = sched, saved = []\<rparr>"

text \<open>\<^verbatim>\<open>range(epochs)\<close> is empty for \<open>epochs \<le> 0\<close>.\<close>

definition py_range :: "int \<Rightarrow> nat list" where
  "py_range n = [0 ..< nat n]"

definition train_model_STFT_CNN ::
  "(nat \<Rightarrow> real list) \<Rightarrow> nat option \<Rightarrow> int \<Rightarrow> int \<Rightarrow> real \<Rightarrow> error + train_state" where
  "train_model_STFT_CNN batch_losses sched epochs patience min_delta =
     train_loop batch_losses patience min_delta (py_range epochs) (initial_state sched)"

definition train_model_LDC_Unet ::
  "(nat \<Rightarrow> real list) \<Rightarrow> nat option \<Rightarrow> int \<Rightarrow> int \<Rightarrow> real \<Rightarrow> error + train_state" where
  "train_model_LDC_Unet batch_losses sched epochs patience min_delta =
     train_loop_save batch_losses patience min_delta (py_range epochs) (initial_state sched)"

definition train_model_CWD_TFA ::
  "(nat \<Rightarrow> real list) \<Rightarrow> nat option \<Rightarrow> int \<Rightarrow> int \<Rightarrow> real \<Rightarrow> error + train_state" where
  "train_model_CWD_TFA batch_losses sched epochs patience min_delta =
     train_loop batch_losses patience min_delta (py_range epochs) (initial_state sched)"

subsection \<open>What the early-stopping rule means, stated without the loop\<close>

text \<open>The mean of the batch losses of epoch \<open>e\<close>.\<close>

definition mean_loss :: "(nat \<Rightarrow> real list) \<Rightarrow> nat \<Rightarrow> real" where
  "mean_loss batch_losses e = sum_list (batch_losses e) / real (length (batch_losses e))"

text \<open>
  The best loss recorded before epoch \<open>k\<close>: infinite at first, and replaced by the
  average of an epoch exactly when that average is smaller than it by more than
  \<open>min_delta\<close>.
\<close>

fun best_before :: "(nat \<Rightarrow> real) \<Rightarrow> real \<Rightarrow> nat \<Rightarrow> real option" where
  "best_before avgs min_delta 0 = None"
| "best_before avgs min_delta (Suc k) =
     (if improves (avgs k) (best_before avgs min_delta k) min_delta then Some (avgs k)
      else best_before avgs min_delta k)"

text \<open>Epoch \<open>k\<close> fails to improve on the best loss by more than \<open>min_delta\<close>.\<close>

definition non_improving :: "(nat \<Rightarrow> real) \<Rightarrow> real \<Rightarrow> nat \<Rightarrow> bool" where
  "non_improving avgs min_delta k = (\<not> improves (avgs k) (best_before avgs min_delta k) min_delta)"

text \<open>The number of consecutive non-improving epochs that end with epoch \<open>k - 1\<close>.\<close>

fun failing_run :: "(nat \<Rightarrow> real) \<Rightarrow> real \<Rightarrow> nat \<Rightarrow> nat" where
  "failing_run avgs min_delta 0 = 0"
| "failing_run avgs min_delta (Suc k) =
     (if non_improving avgs min_delta k then Suc (failing_run avgs min_delta k) else 0)"

text \<open>
  Epoch \<open>k\<close> exhausts the patience: it is non-improving and ends a run of at least
  \<open>patience\<close> consecutive non-improving epochs.
\<close>

definition patience_exhausted :: "(nat \<Rightarrow> real) \<Rightarrow> real \<Rightarrow> int \<Rightarrow> nat \<Rightarrow> bool" where
  "patience_exhausted avgs min_delta patience k =
     (non_improving avgs min_delta k \<and> patience \<le> int (failing_run avgs min_delta (Suc k)))"

text \<open>
  The behaviour of \<^verbatim>\<open>train_model\<close> in these terms. With \<open>m\<close> the number of epochs
  that ran: the history holds the mean loss of each of them, a scheduler has been stepped
  \<open>m\<close> times, fewer than \<open>epochs\<close> epochs ran exactly when an epoch other than the
  last requested one exhausts the patience, no epoch before the last one that ran does
  so, and the last one that ran does when the run was cut short.
\<close>

definition early_stopping_spec ::
  "error + train_state \<Rightarrow> (nat \<Rightarrow> real list) \<Rightarrow> nat option \<Rightarrow> int \<Rightarrow> int \<Rightarrow> real \<Rightarrow> bool" where
  "early_stopping_spec result batch_losses sched epochs patience min_delta =
     (case result of
        Inl e \<Rightarrow> False
      | Inr s \<Rightarrow>
          (let m = length (loss_history s); n = nat epochs; avgs = mean_loss batch_losses
           in m \<le> n
              \<and> loss_history s = map avgs [0 ..< m]
              \<and> scheduler s = map_option (\<lambda>c. c + m) sched
              \<and> ((m < n) = (\<exists>k \<in> {..< n}. Suc k < n \<and> patience_exhausted avgs min_delta patience k))
              \<and> (\<forall>k \<in> {..< m}. Suc k < m \<longrightarrow> \<not> patience_exhausted avgs min_delta patience k)
              \<and> (m < n \<longrightarrow> 0 < m \<and> patience_exhausted avgs min_delta patience (m - 1))))"

text \<open>
  The rule as the specification words it, for comparison. Among the first \<open>m\<close> epochs
  there are \<open>patience\<close> consecutive ones, the last of them epoch \<open>k\<close>, whose average
  loss failed to be smaller than the best loss by more than \<open>min_delta\<close>.
\<close>

definition failed_for_patience_epochs :: "(nat \<Rightarrow> real) \<Rightarrow> real \<Rightarrow> int \<Rightarrow> nat \<Rightarrow> bool" where
  "failed_for_patience_epochs avgs min_delta patience m =
     (\<exists>k \<in> {..< m}. patience \<le> int k + 1 \<and>
        (\<forall>j \<in> {..< m}. int k - patience < int j \<and> j \<le> k \<longrightarrow> non_improving avgs min_delta j))"

text \<open>
  ``Training stops before the requested number of epochs exactly when, for \<open>patience\<close>
  consecutive epochs, the average loss failed to be smaller than the best loss by more
  than \<open>min_delta\<close>.''
\<close>

definition early_stopping_as_claimed ::
  "error + train_state \<Rightarrow> (nat \<Rightarrow> real list) \<Rightarrow> int \<Rightarrow> int \<Rightarrow> real \<Rightarrow> bool" where
  "early_stopping_as_claimed result batch_losses epochs patience min_delta =
     (case result of
        Inl e \<Rightarrow> False
      | Inr s \<Rightarrow>
          (length (loss_history s) < nat epochs)
            = failed_for_patience_epochs (mean_loss batch_losses) min_delta patience
                (length (loss_history s)))"

text \<open>The part of the state that the loops of the three notebooks have in common.\<close>

definition core :: "train_state \<Rightarrow> real list \<times> real option \<times> int \<times> nat option" where
  "core s = (loss_history s, best_loss s, patience_counter s, scheduler s)"

section \<open>The normalised confusion matrices\<close>

text \<open>
  \<^verbatim>\<open>display_confusion_matrix\<close> and \<^verbatim>\<open>evaluate_model\<close> collect the true and the
  predicted class indices and call \<^verbatim>\<open>sklearn.metrics.confusion_matrix\<close>: it refuses lists
  of different lengths and empty lists, takes as labels the sorted distinct values that
  occur in either list, and counts in row \<open>a\<close>, column \<open>b\<close> the samples with true label
  \<open>a\<close> and predicted label \<open>b\<close>.
\<close>

definition unique_labels :: "int list \<Rightarrow> int list \<Rightarrow> int list" where
  "unique_labels y_true y_pred = sort (remdups (y_true @ y_pred))"

definition confusion_matrix :: "int list \<Rightarrow> int list \<Rightarrow> error + nat list list" where
  "confusion_matrix y_true y_pred =
     (if length y_true \<noteq> length y_pred then Inl ValueError
      else if y_true = [] then Inl ValueError
      else (let labels = unique_labels y_true y_pred
            in Inr (map (\<lambda>a. map (\<lambda>b. length (filter (\<lambda>tp. tp = (a, b)) (zip y_true y_pred)))
                                  labels)
                        labels)))"

text \<open>
  NumPy division of floats raises nothing: dividing by zero yields \<^verbatim>\<open>nan\<close> or
  \<^verbatim>\<open>inf\<close>, which is \<open>None\<close> here; the other values are real numbers.
\<close>

definition np_divide :: "real \<Rightarrow> real \<Rightarrow> real option" where
  "np_divide a b = (if b = 0 then None else Some (a / b))"

text \<open>
  \<^verbatim>\<open>cm.astype(np.float32) / cm.sum(axis=1, keepdims=True) * 100\<close>, as in
  \<^verbatim>\<open>display_confusion_matrix\<close> and \<^verbatim>\<open>evaluate_model\<close> of the STFT-CNN and the
  LDC-Unet notebook and in \<^verbatim>\<open>evaluate_model\<close> of the CWD-TFA notebook.
\<close>

definition cm_normalized :: "nat list list \<Rightarrow> real option list list" where
  "cm_normalized cm =
     map (\<lambda>row. map (\<lambda>c. map_option (\<lambda>q. q * 100) (np_divide (real c) (real (sum_list row)))) row)
         cm"

text \<open>
  \<^verbatim>\<open>cm.astype(np.float32) / cm.sum(axis=1, keepdims=True)\<close>, as in
  \<^verbatim>\<open>display_confusion_matrix\<close> of the CWD-TFA notebook: no factor 100.
\<close>

definition cm_normalized_CWD_TFA :: "nat list list \<Rightarrow> real option list list" where
  "cm_normalized_CWD_TFA cm =
     map (\<lambda>row. map (\<lambda>c. np_divide (real c) (real (sum_list row))) row) cm"

text \<open>
  For the statements below, without the code: the classes in ascending order, the number
  of samples with a given true label, and the number of those among them with a given
  predicted label.
\<close>

definition classes_of :: "int list \<Rightarrow> int list \<Rightarrow> int list" where
  "classes_of y_true y_pred = sorted_list_of_set (set y_true \<union> set y_pred)"

definition count_true :: "int list \<Rightarrow> int \<Rightarrow> nat" where
  "count_true y_true a = card {k. k < length y_true \<and> y_true ! k = a}"

definition count_pairs :: "int list \<Rightarrow> int list \<Rightarrow> int \<Rightarrow> int \<Rightarrow> nat" where
  "count_pairs y_true y_pred a b =
     card {k. k < length y_true \<and> y_true ! k = a \<and> y_pred ! k = b}"

text \<open>The share of the samples of class \<open>a\<close> that are predicted as \<open>b\<close>.\<close>

definition share :: "int list \<Rightarrow> int list \<Rightarrow> int \<Rightarrow> int \<Rightarrow> real" where
  "share y_true y_pred a b = real (count_pairs y_true y_pred a b) / real (count_true y_true a)"

text \<open>
  The sum of a row, where a \<^verbatim>\<open>nan\<close> in the row makes the sum \<^verbatim>\<open>nan\<close>, and the claim
  as the specification words it: every row of the normalised matrix sums to 100.
\<close>

definition row_total :: "real option list \<Rightarrow> real option" where
  "row_total row = (if None \<in> set row then None else Some (sum_list (map the row)))"

definition rows_sum_to_100_as_claimed :: "real option list list \<Rightarrow> bool" where
  "rows_sum_to_100_as_claimed m = (\<forall>row \<in> set m. row_total row = Some 100)"

section \<open>Loading the spectrograms: \<^verbatim>\<open>load_spectrogram_h5s\<close>\<close>

text \<open>
  A NumPy array is its shape and its elements in row-major order. A Python \<^verbatim>\<open>dict\<close> is
  an association list in insertion order; \<open>AList.update\<close> is the assignment
  \<^verbatim>\<open>d[k] = v\<close> (an existing key keeps its place) and \<open>map_of\<close> the lookup.
\<close>

datatype ndarray = NDArray (np_shape: "nat list") (np_data: "real list")

type_synonym spectros = "(int \<times> ndarray) list"

type_synonym spectrogram_dict = "(string \<times> spectros) list"

text \<open>
  What the function sees of the world: \<^verbatim>\<open>os.path.join\<close>; whether a path exists and what
  \<^verbatim>\<open>os.listdir\<close> returns for it or raises; for \<^verbatim>\<open>h5py.File(path, "r")\<close> the exception
  that opening raises, or the keys of the file in the order of \<^verbatim>\<open>h5f.keys()\<close>, each with
  the array that \<^verbatim>\<open>np.array(h5f[key])\<close> gives or the exception it raises; and the builtin
  \<^verbatim>\<open>int\<close> on strings.
\<close>

datatype dir_entry = Missing | ListdirFails error | Directory "string list"

record env =
  path_join :: "string \<Rightarrow> string \<Rightarrow> string"
  path_entry :: "string \<Rightarrow> dir_entry"
  h5py_File :: "string \<Rightarrow> error + (string \<times> (error + ndarray)) list"
  py_int :: "string \<Rightarrow> error + int"

text \<open>The lines that the function prints.\<close>

datatype log_line = Warning_missing string | Loading_from string | Failed_to_load string error

text \<open>\<^verbatim>\<open>f.endswith(ending)\<close>\<close>

definition endswith :: "string \<Rightarrow> string \<Rightarrow> bool" where
  "endswith f ending =
     (length ending \<le> length f \<and> drop (length f - length ending) f = ending)"

text \<open>
  The body of the \<^verbatim>\<open>with\<close> block, on the dictionary \<^verbatim>\<open>spectrogram_dict[mod_name]\<close>:
  the result is that dictionary as the loop leaves it, and the exception if one was
  raised. What was stored before the exception stays stored.
\<close>

fun read_keys ::
  "env \<Rightarrow> (string \<times> (error + ndarray)) list \<Rightarrow> spectros \<Rightarrow> error option \<times> spectros" where
  "read_keys ev [] sp = (None, sp)"
| "read_keys ev ((key, item) # rest) sp =
     (case py_int ev key of
        Inl e \<Rightarrow> (Some e, sp)
      | Inr idx \<Rightarrow>
          (case item of
             Inl e \<Rightarrow> (Some e, sp)
           | Inr a \<Rightarrow> read_keys ev rest (AList.update idx a sp)))"

text \<open>
  One turn of the loop over \<^verbatim>\<open>files\<close>: the entry is created empty before the
  \<^verbatim>\<open>try\<close>, and \<^verbatim>\<open>except Exception\<close> prints the failure and goes on.
\<close>

definition load_file ::
  "env \<Rightarrow> string \<Rightarrow> spectrogram_dict \<times> log_line list \<Rightarrow> string
     \<Rightarrow> spectrogram_dict \<times> log_line list" where
  "load_file ev mod_path st file =
     (let spectrogram_dict = fst st; out = snd st;
          mod_name = take (length file - 3) file;
          file_path = path_join ev mod_path file;
          spectrogram_dict = AList.update mod_name [] spectrogram_dict
      in case h5py_File ev file_path of
           Inl e \<Rightarrow> (spectrogram_dict, out @ [Failed_to_load file_path e])
         | Inr h5f \<Rightarrow>
             (case read_keys ev h5f [] of
                (None, sp) \<Rightarrow> (AList.update mod_name sp spectrogram_dict, out)
              | (Some e, sp) \<Rightarrow>
                  (AList.update mod_name sp spectrogram_dict,
                   out @ [Failed_to_load file_path e])))"

text \<open>One turn of the loop over \<^verbatim>\<open>mod_types\<close>; \<^verbatim>\<open>os.listdir\<close> is not guarded.\<close>

definition load_mod_type ::
  "env \<Rightarrow> string \<Rightarrow> spectrogram_dict \<times> log_line list \<Rightarrow> string
     \<Rightarrow> error + spectrogram_dict \<times> log_line list" where
  "load_mod_type ev root_folder st mod_type =
     (let mod_path = path_join ev root_folder mod_type
      in case path_entry ev mod_path of
           Missing \<Rightarrow> Inr (fst st, snd st @ [Warning_missing mod_path])
         | ListdirFails e \<Rightarrow> Inl e
         | Directory names \<Rightarrow>
             (let files = filter (\<lambda>f. endswith f ''.h5'') names
              in Inr (foldl (load_file ev mod_path) (fst st, snd st @ [Loading_from mod_type])
                        files)))"

fun load_mod_types ::
  "env \<Rightarrow> string \<Rightarrow> string list \<Rightarrow> spectrogram_dict \<times> log_line list
     \<Rightarrow> error + spectrogram_dict \<times> log_line list" where
  "load_mod_types ev root_folder [] st = Inr st"
| "load_mod_types ev root_folder (mod_type # rest) st =
     and_then (load_mod_type ev root_folder st mod_type) (load_mod_types ev root_folder rest)"

definition load_spectrogram_h5s ::
  "env \<Rightarrow> string \<Rightarrow> string list \<Rightarrow> error + spectrogram_dict \<times> log_line list" where
  "load_spectrogram_h5s ev root_folder mod_types = load_mod_types ev root_folder mod_types ([], [])"

text \<open>
  For the statements about the function, without its loops. One key of an open file is
  read without exception when \<^verbatim>\<open>int(key)\<close> and then \<^verbatim>\<open>np.array(h5f[key])\<close> succeed;
  otherwise the first of the two that raises gives the exception.
\<close>

definition item_error :: "env \<Rightarrow> string \<times> (error + ndarray) \<Rightarrow> error option" where
  "item_error ev it =
     (case py_int ev (fst it) of
        Inl e \<Rightarrow> Some e
      | Inr idx \<Rightarrow> (case snd it of Inl e \<Rightarrow> Some e | Inr a \<Rightarrow> None))"

definition item_read :: "env \<Rightarrow> string \<times> (error + ndarray) \<Rightarrow> (int \<times> ndarray) option" where
  "item_read ev it =
     (case py_int ev (fst it) of
        Inl e \<Rightarrow> None
      | Inr idx \<Rightarrow> (case snd it of Inl e \<Rightarrow> None | Inr a \<Rightarrow> Some (idx, a)))"

text \<open>
  The exception, if any, that the load of the file at a path meets: the one of opening
  it, or the one of the first key that cannot be read. The spectrograms, with their
  indices, of the keys that come before that exception, in the order of the keys; all
  of them when there is no exception, none when the file cannot be opened.
\<close>

definition first_failure :: "env \<Rightarrow> string \<Rightarrow> error option" where
  "first_failure ev file_path =
     (case h5py_File ev file_path of
        Inl e \<Rightarrow> Some e
      | Inr h5f \<Rightarrow>
          (case dropWhile (\<lambda>it. item_error ev it = None) h5f of
             [] \<Rightarrow> None
           | it # rest \<Rightarrow> item_error ev it))"

definition items_before_failure :: "env \<Rightarrow> string \<Rightarrow> (int \<times> ndarray) list" where
  "items_before_failure ev file_path =
     (case h5py_File ev file_path of
        Inl e \<Rightarrow> []
      | Inr h5f \<Rightarrow> List.map_filter (item_read ev) (takeWhile (\<lambda>it. item_error ev it = None) h5f))"

text \<open>The name of the entry of a file, \<^verbatim>\<open>file[:-3]\<close>.\<close>

definition mod_name_of :: "string \<Rightarrow> string" where
  "mod_name_of file = take (length file - 3) file"

text \<open>
  The \<^verbatim>\<open>.h5\<close> files of a directory, in the order of \<^verbatim>\<open>os.listdir\<close>, and the files that
  the two loops reach, in the order in which they reach them, each with the path of its
  directory.
\<close>

definition h5_files :: "env \<Rightarrow> string \<Rightarrow> string list" where
  "h5_files ev mod_path =
     (case path_entry ev mod_path of
        Directory names \<Rightarrow> filter (suffix ''.h5'') names
      | Missing \<Rightarrow> []
      | ListdirFails e \<Rightarrow> [])"

definition reached_files :: "env \<Rightarrow> string \<Rightarrow> string list \<Rightarrow> (string \<times> string) list" where
  "reached_files ev root_folder mod_types =
     concat (map (\<lambda>mod_type.
        map (\<lambda>file. (path_join ev root_folder mod_type, file))
            (h5_files ev (path_join ev root_folder mod_type))) mod_types)"

text \<open>
  What is printed: for each modulation type the warning that its directory is missing,
  or the line that announces it followed by one line for each of its files whose load
  met an exception, with the path of the file and the exception.
\<close>

definition failure_line :: "env \<Rightarrow> string \<Rightarrow> log_line list" where
  "failure_line ev file_path =
     (case first_failure ev file_path of
        None \<Rightarrow> []
      | Some e \<Rightarrow> [Failed_to_load file_path e])"

definition printed :: "env \<Rightarrow> string \<Rightarrow> string list \<Rightarrow> log_line list" where
  "printed ev root_folder mod_types =
     concat (map (\<lambda>mod_type.
        (case path_entry ev (path_join ev root_folder mod_type) of
           Missing \<Rightarrow> [Warning_missing (path_join ev root_folder mod_type)]
         | ListdirFails e \<Rightarrow> []
         | Directory names \<Rightarrow>
             Loading_from mod_type #
             concat (map (\<lambda>file. failure_line ev (path_join ev (path_join ev root_folder mod_type) file))
                         (h5_files ev (path_join ev root_folder mod_type))))) mod_types)"

text \<open>The same world without one file: \<^verbatim>\<open>os.listdir\<close> of its directory does not list it.\<close>

definition without_file :: "env \<Rightarrow> string \<Rightarrow> string \<Rightarrow> env" where
  "without_file ev mod_path file =
     ev\<lparr>path_entry := (\<lambda>p.
          case path_entry ev p of
            Directory names \<Rightarrow>
              if p = mod_path then Directory (filter (\<lambda>f. f \<noteq> file) names) else Directory names
          | Missing \<Rightarrow> Missing
          | ListdirFails e \<Rightarrow> ListdirFails e)\<rparr>"

text \<open>
  The claim as the specification words it: for every file reached whose load meets an
  exception, the function returns, the exception is printed, the entry of the file's
  name is in the dictionary, and the entry of every other file reached is what it is
  in the world without the failing file.
\<close>

definition failed_load_as_claimed :: "env \<Rightarrow> string \<Rightarrow> string list \<Rightarrow> bool" where
  "failed_load_as_claimed ev root_folder mod_types =
     (\<forall>pf \<in> set (reached_files ev root_folder mod_types). \<forall>e.
        first_failure ev (path_join ev (fst pf) (snd pf)) = Some e \<longrightarrow>
          (\<exists>d out d' out'.
             load_spectrogram_h5s ev root_folder mod_types = Inr (d, out)
             \<and> load_spectrogram_h5s (without_file ev (fst pf) (snd pf)) root_folder mod_types
                 = Inr (d', out')
             \<and> Failed_to_load (path_join ev (fst pf) (snd pf)) e \<in> set out
             \<and> mod_name_of (snd pf) \<in> fst ` set d
             \<and> (\<forall>other \<in> set (reached_files ev root_folder mod_types). other \<noteq> pf \<longrightarrow>
                   map_of d (mod_name_of (snd other)) = map_of d' (mod_name_of (snd other)))))"

text \<open>
  A small world: directory \<^verbatim>\<open>root/FM\<close> holds \<^verbatim>\<open>a.h5\<close>, which cannot be opened,
  \<^verbatim>\<open>b.h5\<close> with one spectrogram under the key \<^verbatim>\<open>0\<close>, \<^verbatim>\<open>c.h5\<close> whose second key is
  not an integer, and a text file; \<^verbatim>\<open>root/PM\<close> does not exist.
\<close>

definition example_env :: env where
  "example_env =
     \<lparr>path_join = (\<lambda>a b. a @ ''/'' @ b),
      path_entry = (\<lambda>p. if p = ''root/FM''
                          then Directory [''a.h5'', ''b.h5'', ''c.h5'', ''notes.txt'']
                          else Missing),
      h5py_File = (\<lambda>p. if p = ''root/FM/a.h5'' then Inl OSError
                         else if p = ''root/FM/b.h5'' then Inr [(''0'', Inr (NDArray [1] [1]))]
                         else Inr [(''0'', Inr (NDArray [1] [2])), (''x'', Inr (NDArray [1] [3])),
                                   (''1'', Inr (NDArray [1] [4]))]),
      py_int = (\<lambda>k. if k = ''0'' then Inr 0 else if k = ''1'' then Inr 1 else Inl ValueError)\<rparr>"

text \<open>
  Another one: \<^verbatim>\<open>root/FM\<close> and \<^verbatim>\<open>root/PM\<close> each hold a file \<^verbatim>\<open>a.h5\<close>; the one in
  \<^verbatim>\<open>root/FM\<close> has one spectrogram under the key \<^verbatim>\<open>0\<close>, the one in \<^verbatim>\<open>root/PM\<close>
  cannot be opened.
\<close>

definition same_name_env :: env where
  "same_name_env =
     \<lparr>path_join = (\<lambda>a b. a @ ''/'' @ b),
      path_entry = (\<lambda>p. if p = ''root/FM'' \<or> p = ''root/PM'' then Directory [''a.h5'']
                          else Missing),
      h5py_File = (\<lambda>p. if p = ''root/FM/a.h5'' then Inr [(''0'', Inr (NDArray [1] [1]))]
                         else Inl OSError),
      py_int = (\<lambda>k. if k = ''0'' then Inr 0 else Inl ValueError)\<rparr>"

section \<open>From the dictionary to arrays: \<^verbatim>\<open>convert_spectrogram_dict_to_xy\<close>\<close>

text \<open>
  \<^verbatim>\<open>np.array(X_list)\<close> stacks arrays of one shape along a new first axis and raises
  \<open>ValueError\<close> when the shapes differ. The stacked array is given by its slices
  \<open>X[0], \<dots>, X[N - 1]\<close>; \<^verbatim>\<open>np.array(y_list)\<close>, an array of strings, by its elements.
\<close>

definition np_array :: "ndarray list \<Rightarrow> error + ndarray list" where
  "np_array X_list =
     (if \<exists>a \<in> set X_list. np_shape a \<noteq> np_shape (hd X_list) then Inl ValueError
      else Inr X_list)"

text \<open>The inner loop, \<^verbatim>\<open>for idx in sorted(spectros.keys())\<close>.\<close>

fun append_spectros ::
  "string \<Rightarrow> spectros \<Rightarrow> int list \<Rightarrow> ndarray list \<times> string list
     \<Rightarrow> error + ndarray list \<times> string list" where
  "append_spectros label spectros [] acc = Inr acc"
| "append_spectros label spectros (idx # rest) acc =
     (case map_of spectros idx of
        None \<Rightarrow> Inl KeyError
      | Some a \<Rightarrow> append_spectros label spectros rest (fst acc @ [a], snd acc @ [label]))"

text \<open>The outer loop, \<^verbatim>\<open>for label, spectros in data_dict.items()\<close>.\<close>

fun convert_items ::
  "spectrogram_dict \<Rightarrow> ndarray list \<times> string list \<Rightarrow> error + ndarray list \<times> string list" where
  "convert_items [] acc = Inr acc"
| "convert_items ((label, spectros) # rest) acc =
     and_then (append_spectros label spectros (sort (map fst spectros)) acc) (convert_items rest)"

definition convert_spectrogram_dict_to_xy ::
  "spectrogram_dict \<Rightarrow> error + ndarray list \<times> string list" where
  "convert_spectrogram_dict_to_xy data_dict =
     and_then (convert_items data_dict ([], [])) (\<lambda>acc.
     and_then (np_array (fst acc)) (\<lambda>X.
     Inr (X, snd acc)))"

text \<open>The pairs of a spectrogram and its label that one entry of the dictionary holds,
  in ascending order of the integer keys.\<close>

definition labelled_in_key_order :: "string \<times> spectros \<Rightarrow> (ndarray \<times> string) list" where
  "labelled_in_key_order entry =
     map (\<lambda>(idx, a). (a, fst entry)) (sort_key fst (snd entry))"

section \<open>Building the data loader: \<^verbatim>\<open>prepare_dataloader\<close>\<close>

text \<open>
  An argument is a NumPy array (with the kind of its dtype and its shape), a PyTorch
  tensor (with its shape), or an object of another type. The function has no
  \<^verbatim>\<open>try\<close>: an exception raised inside a framework call passes through it unchanged.
  The outcome keeps the two apart: \<open>Raises\<close> is a \<^verbatim>\<open>raise\<close> statement of the function
  itself, \<open>Propagates\<close> an exception that comes out of a call.
\<close>

datatype np_dtype = DFloat | DInt | DBool | DStr | DObject




















section \<open>The loss of the LDC-Unet notebook: \<^verbatim>\<open>SSRLoss\<close>\<close>

text \<open>
  A 2-D tensor is its two sizes and its rows. A float is a real number or, as \<open>None\<close>,
  \<^verbatim>\<open>nan\<close>; rounding is not modelled. \<^verbatim>\<open>nn.CrossEntropyLoss\<close> is a parameter of the
  model: the framework primitive, which raises or returns a float.
\<close>

datatype tensor2 = Tensor2 (nrows: nat) (ncols: nat) (rows_of: "real list list")

definition well_shaped :: "tensor2 \<Rightarrow> bool" where
  "well_shaped t = (length (rows_of t) = nrows t \<and> (\<forall>r \<in> set (rows_of t). length r = ncols t))"

definition fl_add :: "real option \<Rightarrow> real option \<Rightarrow> real option" where
  "fl_add a b = (case (a, b) of (Some x, Some y) \<Rightarrow> Some (x + y) | _ \<Rightarrow> None)"

definition fl_mul :: "real option \<Rightarrow> real option \<Rightarrow> real option" where
  "fl_mul a b = (case (a, b) of (Some x, Some y) \<Rightarrow> Some (x * y) | _ \<Rightarrow> None)"

text \<open>
  \<^verbatim>\<open>self.centers[labels]\<close>: one row of \<open>centers\<close> per label; a negative label counts
  from the end, a label outside \<open>[-C, C)\<close> raises \<open>IndexError\<close>.
\<close>

definition index_row :: "tensor2 \<Rightarrow> int \<Rightarrow> error + real list" where
  "index_row t l =
     (let c = int (nrows t); j = (if l < 0 then l + c else l)
      in if 0 \<le> j \<and> j < c then Inr (rows_of t ! nat j) else Inl IndexError)"

fun index_rows_list :: "tensor2 \<Rightarrow> int list \<Rightarrow> error + real list list" where
  "index_rows_list t [] = Inr []"
| "index_rows_list t (l # ls) =
     and_then (index_row t l) (\<lambda>r. and_then (index_rows_list t ls) (\<lambda>rs. Inr (r # rs)))"

definition index_rows :: "tensor2 \<Rightarrow> int list \<Rightarrow> error + tensor2" where
  "index_rows t labels =
     and_then (index_rows_list t labels) (\<lambda>rs. Inr (Tensor2 (length labels) (ncols t) rs))"

text \<open>
  \<^verbatim>\<open>features - centers_batch\<close> broadcasts: two sizes agree when they are equal or one
  of them is 1, and a size of 1 is repeated.
\<close>

definition broadcast_dim :: "nat \<Rightarrow> nat \<Rightarrow> error + nat" where
  "broadcast_dim a b =
     (if a = b then Inr a else if a = 1 then Inr b else if b = 1 then Inr a
      else Inl RuntimeError)"

definition expand_to :: "nat \<Rightarrow> 'a list \<Rightarrow> 'a list" where
  "expand_to n xs = (if length xs = n then xs else replicate n (hd xs))"

definition tensor_sub :: "tensor2 \<Rightarrow> tensor2 \<Rightarrow> error + tensor2" where
  "tensor_sub a b =
     and_then (broadcast_dim (nrows a) (nrows b)) (\<lambda>n.
     and_then (broadcast_dim (ncols a) (ncols b)) (\<lambda>d.
     Inr (Tensor2 n d
           (map2 (\<lambda>r s. map2 (-) (expand_to d r) (expand_to d s))
              (expand_to n (rows_of a)) (expand_to n (rows_of b))))))"

definition tensor_abs :: "tensor2 \<Rightarrow> tensor2" where
  "tensor_abs t = Tensor2 (nrows t) (ncols t) (map (map abs) (rows_of t))"

text \<open>\<^verbatim>\<open>torch.mean\<close> over all elements; the mean of no elements is \<^verbatim>\<open>nan\<close>.\<close>

definition tensor_mean :: "tensor2 \<Rightarrow> real option" where
  "tensor_mean t =
     (if nrows t * ncols t = 0 then None
      else Some (sum_list (concat (rows_of t)) / real (nrows t * ncols t)))"

record SSRLoss =
  lambda_reg :: real
  ssr_num_classes :: nat
  ssr_feature_dim :: nat
  centers :: tensor2

text \<open>
  \<^verbatim>\<open>__init__(self, num_classes, feature_dim, lambda_reg=0.12)\<close>; the argument \<open>randn\<close>
  gives the rows that \<^verbatim>\<open>torch.randn(num_classes, feature_dim)\<close> draws.
\<close>

definition SSRLoss_init :: "nat \<Rightarrow> nat \<Rightarrow> real option \<Rightarrow> real list list \<Rightarrow> SSRLoss" where
  "SSRLoss_init n_classes f_dim lambda_arg randn =
     \<lparr>lambda_reg = (case lambda_arg of None \<Rightarrow> 12 / 100 | Some l \<Rightarrow> l),
      ssr_num_classes = n_classes,
      ssr_feature_dim = f_dim,
      centers = Tensor2 n_classes f_dim randn\<rparr>"

definition SSRLoss_forward ::
  "(tensor2 \<Rightarrow> int list \<Rightarrow> error + real option) \<Rightarrow> SSRLoss \<Rightarrow> tensor2 \<Rightarrow> int list \<Rightarrow> tensor2
     \<Rightarrow> error + real option" where
  "SSRLoss_forward cross_entropy self features labels logits =
     and_then (cross_entropy logits labels) (\<lambda>loss_softmax.
     and_then (index_rows (centers self) labels) (\<lambda>centers_batch.
     and_then (tensor_sub features centers_batch) (\<lambda>diff.
     (let loss_reg = tensor_mean (tensor_abs diff);
          loss = fl_add loss_softmax (fl_mul (Some (lambda_reg self)) loss_reg)
      in Inr loss))))"

text \<open>
  The regularisation term in the words of the specification: the mean, over the samples
  \<open>i\<close> and the coordinates \<open>j\<close>, of the absolute difference between the feature vector
  of the sample and the center of the class that labels the sample.
\<close>

definition mean_abs_to_center :: "tensor2 \<Rightarrow> tensor2 \<Rightarrow> int list \<Rightarrow> real" where
  "mean_abs_to_center ctrs features labels =
     (\<Sum>i<nrows features. \<Sum>j<ncols features.
         \<bar>rows_of features ! i ! j - rows_of ctrs ! nat (labels ! i) ! j\<bar>)
       / real (nrows features * ncols features)"

section \<open>STFT-CNN: \<^verbatim>\<open>pre_processing\<close>\<close>

text \<open>
  \<^verbatim>\<open>cv2.resize(image, target_size, interpolation=cv2.INTER_AREA)\<close> is a parameter of the
  model: it raises or returns the resized image. The elements are real numbers. NumPy
  divides by zero without raising: when the variance is 0, every element equals the
  mean and becomes \<^verbatim>\<open>0/0 = nan\<close>, and it stays \<^verbatim>\<open>nan\<close> from then on; such an image is
  \<open>AllNan\<close> with its shape.
\<close>

datatype processed = Finite ndarray | AllNan "nat list"

definition processed_shape :: "processed \<Rightarrow> nat list" where
  "processed_shape p = (case p of Finite a \<Rightarrow> np_shape a | AllNan shp \<Rightarrow> shp)"

definition np_mean :: "real list \<Rightarrow> real option" where
  "np_mean xs = (if xs = [] then None else Some (sum_list xs / real (length xs)))"

definition np_var :: "real list \<Rightarrow> real option" where
  "np_var xs =
     (case np_mean xs of
        None \<Rightarrow> None
      | Some m \<Rightarrow> Some (sum_list (map (\<lambda>x. (x - m)\<^sup>2) xs) / real (length xs)))"

text \<open>
  One turn of \<^verbatim>\<open>for _ in range(iterations)\<close>:
  \<^verbatim>\<open>mean = np.mean(img); std = np.var(img); img = (img - mean) / std\<close>.
\<close>

definition normalise :: "processed \<Rightarrow> processed" where
  "normalise p =
     (case p of
        AllNan shp \<Rightarrow> AllNan shp
      | Finite img \<Rightarrow>
          (case (np_mean (np_data img), np_var (np_data img)) of
             (Some mean, Some std) \<Rightarrow>
               if std = 0 then AllNan (np_shape img)
               else Finite (NDArray (np_shape img) (map (\<lambda>x. (x - mean) / std) (np_data img)))
           | _ \<Rightarrow> AllNan (np_shape img)))"

text \<open>\<^verbatim>\<open>processed_image[processed_image < 0] = 0\<close>; \<^verbatim>\<open>nan < 0\<close> is false.\<close>

definition zero_negatives :: "processed \<Rightarrow> processed" where
  "zero_negatives p =
     (case p of
        AllNan shp \<Rightarrow> AllNan shp
      | Finite img \<Rightarrow> Finite (NDArray (np_shape img) (map (\<lambda>x. if x < 0 then 0 else x) (np_data img))))"

text \<open>The body of \<^verbatim>\<open>for image in images\<close>, and the loop with its list \<^verbatim>\<open>processed_images\<close>.\<close>

definition process_image ::
  "(ndarray \<Rightarrow> nat \<times> nat \<Rightarrow> error + ndarray) \<Rightarrow> nat \<Rightarrow> nat \<times> nat \<Rightarrow> ndarray \<Rightarrow> error + processed" where
  "process_image cv2_resize iterations target_size an_image =
     and_then (cv2_resize an_image target_size) (\<lambda>resized_image.
       Inr (zero_negatives ((normalise ^^ iterations) (Finite resized_image))))"

fun process_images ::
  "(ndarray \<Rightarrow> nat \<times> nat \<Rightarrow> error + ndarray) \<Rightarrow> nat \<Rightarrow> nat \<times> nat \<Rightarrow> ndarray list
     \<Rightarrow> processed list \<Rightarrow> error + processed list" where
  "process_images cv2_resize iterations target_size [] processed_images = Inr processed_images"
| "process_images cv2_resize iterations target_size (an_image # rest) processed_images =
     and_then (process_image cv2_resize iterations target_size an_image) (\<lambda>processed_image.
       process_images cv2_resize iterations target_size rest
         (processed_images @ [processed_image]))"

text \<open>\<^verbatim>\<open>np.array(processed_images, dtype=np.float32)\<close>, given by its slices.\<close>

definition np_array_float32 :: "processed list \<Rightarrow> error + processed list" where
  "np_array_float32 ps =
     (if \<exists>p \<in> set ps. processed_shape p \<noteq> processed_shape (hd ps) then Inl ValueError
      else Inr ps)"

definition pre_processing ::
  "(ndarray \<Rightarrow> nat \<times> nat \<Rightarrow> error + ndarray) \<Rightarrow> ndarray list \<Rightarrow> error + processed list" where
  "pre_processing cv2_resize images =
     (let iterations = 6; target_size = (40, 40)
      in and_then (process_images cv2_resize iterations target_size images []) np_array_float32)"

text \<open>
  The steps in the words of the specification: the mean is subtracted and the result is
  divided by the variance, the mean of the squared deviations from the mean.
\<close>

definition variance :: "real list \<Rightarrow> real" where
  "variance xs =
     (\<Sum>x\<leftarrow>xs. (x - sum_list xs / real (length xs))\<^sup>2) / real (length xs)"

definition subtract_mean_divide_by_variance :: "real list \<Rightarrow> real list" where
  "subtract_mean_divide_by_variance xs =
     map (\<lambda>x. (x - sum_list xs / real (length xs)) / variance xs) xs"

text \<open>The arithmetic is defined: none of the first \<open>n\<close> divisions is a division by 0.\<close>

fun arithmetic_defined :: "nat \<Rightarrow> real list \<Rightarrow> bool" where
  "arithmetic_defined 0 xs = True"
| "arithmetic_defined (Suc n) xs =
     (xs \<noteq> [] \<and> variance xs \<noteq> 0 \<and> arithmetic_defined n (subtract_mean_divide_by_variance xs))"

section \<open>Shape correctness of the forward passes\<close>

lemmas layer_defs =
  and_then_def conv_hw_def pool_hw_def window_out_def window_fits_def ReLU_def Linear_def
  tensor_add_def MaxPool2d_k_def conv3x3_def

lemmas unet_defs =
  LDC_Unet_forward_def LDC_Unet_init_def encoder_forward_def encoder_init_def
  decoder_forward_def decoder_init_def decoder_4_forward_def decoder_4_init_def

text \<open>
  Claim C5. For a batch of \<open>N\<close> images of shape 3 x 40 x 40 the STFT-CNN
  \<^verbatim>\<open>MainModel\<close> forward pass raises nothing and returns logits of shape
  \<open>N x num_classes\<close>: convolution 5x5 (3 to 6 channels), average pooling 2x2,
  convolution 5x5 (6 to 12 channels) and average pooling 2x2 take 40 x 40 to 12 channels
  of 7 x 7, the flattened vector has 588 entries, and 588 is the \<open>in_features\<close> of the
  final linear layer.
\<close>

theorem MainModel_forward_shape:
  "MainModel_forward (MainModel_init num_classes) [N, 3, 40, 40] = Inr [N, num_classes]
   \<and> MainModel_features (MainModel_init num_classes) [N, 3, 40, 40] = Inr [N, 12, 7, 7]
   \<and> Flatten [N, 12, 7, 7] = Inr [N, 588]
   \<and> in_features (mm_fc (MainModel_init num_classes)) = 588"
  by (simp add: MainModel_forward_def MainModel_features_def MainModel_init_def layer_defs)

text \<open>
  Claim C6. For a batch of shape \<open>N x 3 x 64 x 64\<close>, \<^verbatim>\<open>LDC_Unet.forward\<close> returns a
  tensor of the same shape. The five stride-2 encoders give 64 channels of 32 x 32, 128 of
  16 x 16, 256 of 8 x 8, 256 of 4 x 4 and 512 of 2 x 2; every concatenation in the
  decoders is well-formed, \<^verbatim>\<open>decoder_4\<close> gives 192 channels and each \<^verbatim>\<open>decoder\<close>
  256 channels (the \<open>c4\<close> of the next decoder); the last upsampling and the two
  convolutions give 3 channels of 64 x 64.
\<close>

theorem LDC_Unet_forward_shape:
  "LDC_Unet_forward LDC_Unet_init [N, 3, 64, 64] = Inr [N, 3, 64, 64]
   \<and> encoder_forward (e1 LDC_Unet_init) [N, 3, 64, 64] = Inr [N, 64, 32, 32]
   \<and> encoder_forward (e2 LDC_Unet_init) [N, 64, 32, 32] = Inr [N, 128, 16, 16]
   \<and> encoder_forward (e3 LDC_Unet_init) [N, 128, 16, 16] = Inr [N, 256, 8, 8]
   \<and> encoder_forward (e4 LDC_Unet_init) [N, 256, 8, 8] = Inr [N, 256, 4, 4]
   \<and> encoder_forward (e5 LDC_Unet_init) [N, 256, 4, 4] = Inr [N, 512, 2, 2]
   \<and> decoder_4_forward (d4 LDC_Unet_init) [N, 256, 8, 8] [N, 256, 4, 4] [N, 512, 2, 2]
       = Inr [N, 192, 4, 4]
   \<and> decoder_forward (d3 LDC_Unet_init)
         [N, 128, 16, 16] [N, 256, 8, 8] [N, 256, 4, 4] [N, 192, 4, 4]
       = Inr [N, 256, 8, 8]
   \<and> decoder_forward (d2 LDC_Unet_init)
         [N, 64, 32, 32] [N, 128, 16, 16] [N, 256, 8, 8] [N, 256, 8, 8]
       = Inr [N, 256, 16, 16]
   \<and> decoder_forward (d1 LDC_Unet_init)
         [N, 3, 64, 64] [N, 64, 32, 32] [N, 128, 16, 16] [N, 256, 16, 16]
       = Inr [N, 256, 32, 32]
   \<and> Upsample (unet_upsample LDC_Unet_init) [N, 256, 32, 32] = Inr [N, 256, 64, 64]"
  by (simp add: unet_defs layer_defs)

section \<open>The training loops: epochs run, history, scheduler, checkpoints\<close>

lemma foldl_plus: "foldl (+) (a::real) ls = a + sum_list ls"
  by (induction ls arbitrary: a) auto

lemma epoch_avg_loss_ok: "ls \<noteq> [] \<Longrightarrow> epoch_avg_loss ls = Inr (sum_list ls / real (length ls))"
  by (simp add: epoch_avg_loss_def foldl_plus)

lemma train_loop_char:
  assumes ne: "\<forall>e<n. L e \<noteq> []"
  shows "k \<le> n \<Longrightarrow> loss_history s = map (mean_loss L) [0..<k] \<Longrightarrow>
     best_loss s = best_before (mean_loss L) md k \<Longrightarrow>
     patience_counter s = int (failing_run (mean_loss L) md k) \<Longrightarrow>
     (\<forall>j<k. \<not> patience_exhausted (mean_loss L) md p j) \<Longrightarrow>
     \<exists>s' m. train_loop L p md [k..<n] s = Inr s' \<and> k \<le> m \<and> m \<le> n
        \<and> loss_history s' = map (mean_loss L) [0..<m]
        \<and> scheduler s' = map_option (\<lambda>c. c + (m - k)) (scheduler s)
        \<and> saved s' = saved s
        \<and> (\<forall>j. Suc j < m \<longrightarrow> \<not> patience_exhausted (mean_loss L) md p j)
        \<and> (m < n \<longrightarrow> 0 < m \<and> patience_exhausted (mean_loss L) md p (m - 1))"
proof (induction "n - k" arbitrary: k s)
  case 0
  then have "k = n" by simp
  with 0 show ?case
    by (intro exI[of _ s] exI[of _ n]) (auto simp: option.map_ident)
next
  case (Suc d)
  then have kn: "k < n" by simp
  then have upt: "[k..<n] = k # [Suc k..<n]" by (simp add: upt_conv_Cons)
  have avg: "epoch_avg_loss (L k) = Inr (mean_loss L k)"
    using ne kn by (simp add: epoch_avg_loss_ok mean_loss_def)
  let ?a = "mean_loss L k"
  let ?s1 = "scheduler_step (s\<lparr>loss_history := loss_history s @ [?a]\<rparr>)"
  have hist1: "loss_history ?s1 = map (mean_loss L) [0..<Suc k]"
    using Suc.prems by (simp add: scheduler_step_def)
  show ?case
  proof (cases "improves ?a (best_loss s) md")
    case True
    let ?s2 = "?s1\<lparr>best_loss := Some ?a, patience_counter := 0\<rparr>"
    have ni: "\<not> non_improving (mean_loss L) md k"
      using True Suc.prems by (simp add: non_improving_def)
    have step: "train_loop L p md [k..<n] s = train_loop L p md [Suc k..<n] ?s2"
      using True avg by (simp add: upt scheduler_step_def Let_def)
    have "\<exists>s' m. train_loop L p md [Suc k..<n] ?s2 = Inr s' \<and> Suc k \<le> m \<and> m \<le> n
        \<and> loss_history s' = map (mean_loss L) [0..<m]
        \<and> scheduler s' = map_option (\<lambda>c. c + (m - Suc k)) (scheduler ?s2)
        \<and> saved s' = saved ?s2
        \<and> (\<forall>j. Suc j < m \<longrightarrow> \<not> patience_exhausted (mean_loss L) md p j)
        \<and> (m < n \<longrightarrow> 0 < m \<and> patience_exhausted (mean_loss L) md p (m - 1))"
    proof (rule Suc.hyps(1))
      show "d = n - Suc k" using Suc.hyps(2) by simp
      show "Suc k \<le> n" using kn by simp
      show "loss_history ?s2 = map (mean_loss L) [0..<Suc k]" using hist1 by simp
      show "best_loss ?s2 = best_before (mean_loss L) md (Suc k)"
        using True Suc.prems by simp
      show "patience_counter ?s2 = int (failing_run (mean_loss L) md (Suc k))"
        using ni by simp
      show "\<forall>j<Suc k. \<not> patience_exhausted (mean_loss L) md p j"
        using Suc.prems(5) ni by (auto simp: less_Suc_eq patience_exhausted_def)
    qed
    then obtain s' m where r: "train_loop L p md [Suc k..<n] ?s2 = Inr s'" "Suc k \<le> m" "m \<le> n"
        "loss_history s' = map (mean_loss L) [0..<m]"
        "scheduler s' = map_option (\<lambda>c. c + (m - Suc k)) (scheduler ?s2)"
        "saved s' = saved ?s2"
        "\<forall>j. Suc j < m \<longrightarrow> \<not> patience_exhausted (mean_loss L) md p j"
        "m < n \<longrightarrow> 0 < m \<and> patience_exhausted (mean_loss L) md p (m - 1)"
      by blast
    have sch: "scheduler s' = map_option (\<lambda>c. c + (m - k)) (scheduler s)"
      using r(5) r(2) by (cases "scheduler s") (auto simp: scheduler_step_def)
    show ?thesis
      using r sch step by (intro exI[of _ s'] exI[of _ m]) (auto simp: scheduler_step_def)
  next
    case False
    have ni: "non_improving (mean_loss L) md k"
      using False Suc.prems by (simp add: non_improving_def)
    let ?s2 = "?s1\<lparr>patience_counter := patience_counter s + 1\<rparr>"
    have cnt: "patience_counter ?s2 = int (failing_run (mean_loss L) md (Suc k))"
      using ni Suc.prems by simp
    show ?thesis
    proof (cases "patience_counter s + 1 \<ge> p")
      case True
      have ex: "patience_exhausted (mean_loss L) md p k"
        using True ni cnt by (simp add: patience_exhausted_def)
      have step: "train_loop L p md [k..<n] s = Inr ?s2"
        using True False avg by (simp add: upt scheduler_step_def Let_def)
      show ?thesis
        using step hist1 ex Suc.prems(5) kn
        by (intro exI[of _ ?s2] exI[of _ "Suc k"]) (auto simp: scheduler_step_def)
    next
      case nstop: False
      have nex: "\<not> patience_exhausted (mean_loss L) md p k"
        using nstop ni cnt by (simp add: patience_exhausted_def)
      have step: "train_loop L p md [k..<n] s = train_loop L p md [Suc k..<n] ?s2"
        using nstop False avg by (simp add: upt scheduler_step_def Let_def)
      have "\<exists>s' m. train_loop L p md [Suc k..<n] ?s2 = Inr s' \<and> Suc k \<le> m \<and> m \<le> n
        \<and> loss_history s' = map (mean_loss L) [0..<m]
        \<and> scheduler s' = map_option (\<lambda>c. c + (m - Suc k)) (scheduler ?s2)
        \<and> saved s' = saved ?s2
        \<and> (\<forall>j. Suc j < m \<longrightarrow> \<not> patience_exhausted (mean_loss L) md p j)
        \<and> (m < n \<longrightarrow> 0 < m \<and> patience_exhausted (mean_loss L) md p (m - 1))"
      proof (rule Suc.hyps(1))
        show "d = n - Suc k" using Suc.hyps(2) by simp
        show "Suc k \<le> n" using kn by simp
        show "loss_history ?s2 = map (mean_loss L) [0..<Suc k]" using hist1 by simp
        show "best_loss ?s2 = best_before (mean_loss L) md (Suc k)"
          using False Suc.prems by (simp add: scheduler_step_def)
        show "patience_counter ?s2 = int (failing_run (mean_loss L) md (Suc k))"
          using cnt .
        show "\<forall>j<Suc k. \<not> patience_exhausted (mean_loss L) md p j"
          using Suc.prems(5) nex by (auto simp: less_Suc_eq)
      qed
      then obtain s' m where r: "train_loop L p md [Suc k..<n] ?s2 = Inr s'" "Suc k \<le> m" "m \<le> n"
        "loss_history s' = map (mean_loss L) [0..<m]"
        "scheduler s' = map_option (\<lambda>c. c + (m - Suc k)) (scheduler ?s2)"
        "saved s' = saved ?s2"
        "\<forall>j. Suc j < m \<longrightarrow> \<not> patience_exhausted (mean_loss L) md p j"
        "m < n \<longrightarrow> 0 < m \<and> patience_exhausted (mean_loss L) md p (m - 1)"
        by blast
      have sch: "scheduler s' = map_option (\<lambda>c. c + (m - k)) (scheduler s)"
        using r(5) r(2) by (cases "scheduler s") (auto simp: scheduler_step_def)
      show ?thesis
        using r sch step by (intro exI[of _ s'] exI[of _ m]) (auto simp: scheduler_step_def)
    qed
  qed
qed

lemma train_loop_save_core:
  "core s = core t \<Longrightarrow>
   rel_sum (=) (\<lambda>a b. core a = core b) (train_loop_save L p md es s) (train_loop L p md es t)"
proof (induction es arbitrary: s t)
  case Nil
  then show ?case by simp
next
  case (Cons e es)
  from Cons.prems have eqs: "loss_history s = loss_history t" "best_loss s = best_loss t"
    "patience_counter s = patience_counter t" "scheduler s = scheduler t"
    by (simp_all add: core_def)
  show ?case
  proof (cases "epoch_avg_loss (L e)")
    case (Inl x)
    then show ?thesis by simp
  next
    case (Inr a)
    show ?thesis
      by (simp add: Inr Let_def scheduler_step_def eqs; intro conjI impI Cons.IH;
          simp add: core_def eqs)
  qed
qed

lemma train_loop_save_saved:
  "train_loop_save L p md es s = Inr s' \<Longrightarrow>
     \<exists>m\<le>length es. length (loss_history s') = length (loss_history s) + m
       \<and> saved s' = saved s @ map (\<lambda>e. (''model_latest.pth'', e)) (filter (\<lambda>e. e mod 5 \<noteq> 0) (take m es))"
proof (induction es arbitrary: s)
  case Nil
  then show ?case by simp
next
  case (Cons e es)
  from Cons.prems obtain a where a: "epoch_avg_loss (L e) = Inr a"
    by (cases "epoch_avg_loss (L e)") auto
  let ?s1 = "s\<lparr>loss_history := loss_history s @ [a]\<rparr>"
  let ?s2 = "scheduler_step (if e mod 5 \<noteq> 0 then ?s1\<lparr>saved := saved ?s1 @ [(''model_latest.pth'', e)]\<rparr> else ?s1)"
  have len2: "length (loss_history ?s2) = Suc (length (loss_history s))"
    by (simp add: scheduler_step_def)
  have sv2: "saved ?s2 = saved s @ map (\<lambda>e. (''model_latest.pth'', e)) (filter (\<lambda>e. e mod 5 \<noteq> 0) [e])"
    by (simp add: scheduler_step_def)
  consider (stop) "s' = ?s2\<lparr>patience_counter := patience_counter s + 1\<rparr>"
    | (go1) "train_loop_save L p md es (?s2\<lparr>best_loss := Some a, patience_counter := 0\<rparr>) = Inr s'"
    | (go2) "train_loop_save L p md es (?s2\<lparr>patience_counter := patience_counter s + 1\<rparr>) = Inr s'"
    using Cons.prems a
    by (auto simp add: Let_def scheduler_step_def split: if_splits)
  then show ?case
  proof cases
    case stop
    show ?thesis
      by (rule exI[of _ 1]) (simp add: stop scheduler_step_def)
  next
    case go1
    from Cons.IH[OF go1] obtain m where m: "m \<le> length es"
      "length (loss_history s') = Suc (length (loss_history s)) + m"
      "saved s' = (saved s @ map (\<lambda>e. (''model_latest.pth'', e)) (filter (\<lambda>e. e mod 5 \<noteq> 0) [e]))
          @ map (\<lambda>e. (''model_latest.pth'', e)) (filter (\<lambda>e. e mod 5 \<noteq> 0) (take m es))"
      using len2 sv2 by auto
    show ?thesis
      using m by (intro exI[of _ "Suc m"]) simp
  next
    case go2
    from Cons.IH[OF go2] obtain m where m: "m \<le> length es"
      "length (loss_history s') = Suc (length (loss_history s)) + m"
      "saved s' = (saved s @ map (\<lambda>e. (''model_latest.pth'', e)) (filter (\<lambda>e. e mod 5 \<noteq> 0) [e]))
          @ map (\<lambda>e. (''model_latest.pth'', e)) (filter (\<lambda>e. e mod 5 \<noteq> 0) (take m es))"
      using len2 sv2 by auto
    show ?thesis
      using m by (intro exI[of _ "Suc m"]) simp
  qed
qed

lemma early_stopping_spec_core:
  assumes "early_stopping_spec (Inr s') L sched epochs p md" "core s = core s'"
  shows "early_stopping_spec (Inr s) L sched epochs p md"
  using assms by (simp add: early_stopping_spec_def core_def)

lemma train_loop_spec:
  assumes ne: "\<forall>e<nat epochs. L e \<noteq> []"
  shows "early_stopping_spec (train_loop L p md (py_range epochs) (initial_state sched)) L sched epochs p md"
proof -
  let ?n = "nat epochs"
  let ?A = "mean_loss L"
  have "\<exists>s' m. train_loop L p md [0..<?n] (initial_state sched) = Inr s' \<and> 0 \<le> m \<and> m \<le> ?n
        \<and> loss_history s' = map ?A [0..<m]
        \<and> scheduler s' = map_option (\<lambda>c. c + (m - 0)) (scheduler (initial_state sched))
        \<and> saved s' = saved (initial_state sched)
        \<and> (\<forall>j. Suc j < m \<longrightarrow> \<not> patience_exhausted ?A md p j)
        \<and> (m < ?n \<longrightarrow> 0 < m \<and> patience_exhausted ?A md p (m - 1))"
    by (rule train_loop_char[OF ne]) (simp_all add: initial_state_def)
  then obtain s' m where r: "train_loop L p md [0..<?n] (initial_state sched) = Inr s'" "m \<le> ?n"
     "loss_history s' = map ?A [0..<m]"
     "scheduler s' = map_option (\<lambda>c. c + m) sched"
     "\<forall>j. Suc j < m \<longrightarrow> \<not> patience_exhausted ?A md p j"
     "m < ?n \<longrightarrow> 0 < m \<and> patience_exhausted ?A md p (m - 1)"
    by (auto simp: initial_state_def)
  have len: "length (loss_history s') = m" using r(3) by simp
  have iff: "(m < ?n) = (\<exists>k \<in> {..< ?n}. Suc k < ?n \<and> patience_exhausted ?A md p k)"
  proof
    assume "m < ?n"
    with r(6) have "0 < m" "patience_exhausted ?A md p (m - 1)" by auto
    with \<open>m < ?n\<close> show "\<exists>k \<in> {..< ?n}. Suc k < ?n \<and> patience_exhausted ?A md p k"
      by (intro bexI[of _ "m - 1"]) auto
  next
    assume "\<exists>k \<in> {..< ?n}. Suc k < ?n \<and> patience_exhausted ?A md p k"
    then obtain k where k: "Suc k < ?n" "patience_exhausted ?A md p k" by auto
    show "m < ?n"
    proof (rule ccontr)
      assume "\<not> m < ?n"
      with r(2) have "m = ?n" by simp
      with k r(5) show False by auto
    qed
  qed
  show ?thesis
    unfolding early_stopping_spec_def py_range_def r(1)
    using r(2-6) iff by (simp add: len Let_def)
qed

lemma train_loop_save_spec:
  assumes ne: "\<forall>e<nat epochs. L e \<noteq> []"
  shows "early_stopping_spec (train_loop_save L p md (py_range epochs) (initial_state sched)) L sched epochs p md"
proof -
  have a: "early_stopping_spec (train_loop L p md (py_range epochs) (initial_state sched)) L sched epochs p md"
    by (rule train_loop_spec[OF ne])
  then obtain s' where s': "train_loop L p md (py_range epochs) (initial_state sched) = Inr s'"
    by (cases "train_loop L p md (py_range epochs) (initial_state sched)")
       (auto simp: early_stopping_spec_def)
  have "rel_sum (=) (\<lambda>a b. core a = core b)
     (train_loop_save L p md (py_range epochs) (initial_state sched))
     (train_loop L p md (py_range epochs) (initial_state sched))"
    by (rule train_loop_save_core) simp
  then obtain s where s: "train_loop_save L p md (py_range epochs) (initial_state sched) = Inr s"
     "core s = core s'"
    unfolding s' by (cases "train_loop_save L p md (py_range epochs) (initial_state sched)") auto
  show ?thesis
    unfolding s(1) using a s(2) unfolding s' by (rule early_stopping_spec_core)
qed

text \<open>
  Claim C2, as amended. In each notebook, when \<^verbatim>\<open>train_loader\<close> is not empty,
  \<^verbatim>\<open>train_model\<close> returns a history with exactly one entry per epoch that ran, the mean
  of the batch losses of that epoch, and a scheduler, when one is given, has been stepped
  once per epoch that ran. Fewer than \<open>epochs\<close> epochs run exactly when some epoch other
  than the last requested one is non-improving and ends a run of at least \<open>patience\<close>
  consecutive non-improving epochs; the loop then stops with the first such epoch.
  Non-improving means that \<^verbatim>\<open>avg_loss < best_loss - min_delta\<close> is false, where
  \<^verbatim>\<open>best_loss\<close> is infinite at first and is replaced only by the average of an improving
  epoch.
\<close>

theorem train_model_early_stopping:
  assumes "\<forall>e<nat epochs. batch_losses e \<noteq> []"
  shows "early_stopping_spec (train_model_STFT_CNN batch_losses sched epochs patience min_delta)
            batch_losses sched epochs patience min_delta
       \<and> early_stopping_spec (train_model_LDC_Unet batch_losses sched epochs patience min_delta)
            batch_losses sched epochs patience min_delta
       \<and> early_stopping_spec (train_model_CWD_TFA batch_losses sched epochs patience min_delta)
            batch_losses sched epochs patience min_delta"
  unfolding train_model_STFT_CNN_def train_model_LDC_Unet_def train_model_CWD_TFA_def
  using train_loop_spec[OF assms] train_loop_save_spec[OF assms] by simp

text \<open>
  Five epochs requested with patience 2: the averages are 3, 3, 3, \<dots>, so that epochs
  1 and 2 do not improve and the loop stops after three epochs.
\<close>

theorem train_model_early_stopping_witness:
  "early_stopping_spec
      (train_model_STFT_CNN (\<lambda>e. if e = 0 then [4, 2] else [3, 3]) (Some 0) 5 2 0)
      (\<lambda>e. if e = 0 then [4, 2] else [3, 3]) (Some 0) 5 2 0
   \<and> map_sum id loss_history
       (train_model_STFT_CNN (\<lambda>e. if e = 0 then [4, 2] else [3, 3]) (Some 0) 5 2 0)
     = Inr [3, 3, 3]"
proof -
  have "\<forall>e<nat 5. (\<lambda>e. if e = 0 then [4, 2] else [3, 3::real]) e \<noteq> []" by simp
  from train_model_early_stopping[OF this, of "Some 0" 2 0]
  show ?thesis
    by (simp add: train_model_STFT_CNN_def py_range_def initial_state_def upt_rec
        epoch_avg_loss_def improves_def scheduler_step_def)
qed

text \<open>
  The claim as worded fails when the patience runs out in the last requested epoch: with
  \<open>epochs = 2\<close>, \<open>patience = 1\<close>, \<open>min_delta = 0\<close> and an average loss of 1 in both
  epochs, epoch 1 is one non-improving epoch in a row, and yet both requested epochs have
  run: training did not stop before the requested number of epochs.
\<close>

theorem train_model_early_stopping_counterexample:
  "map_sum id loss_history (train_model_STFT_CNN (\<lambda>e. [1]) None 2 1 0) = Inr [1, 1]
   \<and> failed_for_patience_epochs (mean_loss (\<lambda>e. [1])) 0 1 2
   \<and> \<not> early_stopping_as_claimed (train_model_STFT_CNN (\<lambda>e. [1]) None 2 1 0) (\<lambda>e. [1]) 2 1 0"
proof -
  have run: "train_model_STFT_CNN (\<lambda>e. [1]) None 2 1 0
    = Inr \<lparr>loss_history = [1, 1], best_loss = Some 1, patience_counter = 1,
           scheduler = None, saved = []\<rparr>"
    by (simp add: train_model_STFT_CNN_def py_range_def initial_state_def upt_rec
        epoch_avg_loss_def improves_def scheduler_step_def)
  have ni: "non_improving (mean_loss (\<lambda>e. [1])) 0 (Suc 0)"
    by (simp add: non_improving_def improves_def mean_loss_def)
  have f: "failed_for_patience_epochs (mean_loss (\<lambda>e. [1])) 0 1 2"
    unfolding failed_for_patience_epochs_def
    by (rule bexI[of _ "Suc 0"]) (auto simp: ni dest!: less_2_cases)
  show ?thesis
    using f by (simp add: run early_stopping_as_claimed_def numeral_2_eq_2)
qed

text \<open>
  Claim C10. In the LDC-Unet notebook, \<^verbatim>\<open>train_model\<close> writes \<^verbatim>\<open>model_latest.pth\<close> at
  the end of an epoch exactly when the zero-based index of the epoch is not divisible by
  5: never after epochs 0, 5, 10, \<dots>, and after every other epoch that ran. The epochs
  that ran are those that the early-stopping rule lets run (all \<open>epochs\<close> of them when no
  epoch before the last exhausts the patience), one entry of the history each.
\<close>

theorem train_model_LDC_Unet_checkpoints:
  assumes "\<forall>e<nat epochs. batch_losses e \<noteq> []"
  shows "\<exists>s. train_model_LDC_Unet batch_losses sched epochs patience min_delta = Inr s
     \<and> early_stopping_spec (Inr s) batch_losses sched epochs patience min_delta
     \<and> saved s = map (\<lambda>e. (''model_latest.pth'', e))
                    (filter (\<lambda>e. e mod 5 \<noteq> 0) [0 ..< length (loss_history s)])
     \<and> (\<forall>e. ((''model_latest.pth'', e) \<in> set (saved s))
              = (e < length (loss_history s) \<and> \<not> 5 dvd e))
     \<and> ((\<forall>k. Suc k < nat epochs \<longrightarrow>
             \<not> patience_exhausted (mean_loss batch_losses) min_delta patience k) \<longrightarrow>
          saved s = map (\<lambda>e. (''model_latest.pth'', e))
                      (filter (\<lambda>e. e mod 5 \<noteq> 0) [0 ..< nat epochs]))"
proof -
  let ?r = "train_loop_save batch_losses patience min_delta (py_range epochs) (initial_state sched)"
  have spec: "early_stopping_spec ?r batch_losses sched epochs patience min_delta"
    by (rule train_loop_save_spec[OF assms])
  then obtain s where s: "?r = Inr s"
    by (cases ?r) (auto simp: early_stopping_spec_def)
  from train_loop_save_saved[OF s] obtain m where m: "m \<le> length (py_range epochs)"
    "length (loss_history s) = m"
    "saved s = map (\<lambda>e. (''model_latest.pth'', e)) (filter (\<lambda>e. e mod 5 \<noteq> 0) (take m (py_range epochs)))"
    by (auto simp: initial_state_def)
  have tk: "take m (py_range epochs) = [0 ..< m]"
    using m(1) by (simp add: py_range_def take_upt)
  have sv: "saved s = map (\<lambda>e. (''model_latest.pth'', e))
                    (filter (\<lambda>e. e mod 5 \<noteq> 0) [0 ..< length (loss_history s)])"
    using m(2,3) tk by simp
  have mem: "\<forall>e. ((''model_latest.pth'', e) \<in> set (saved s))
              = (e < length (loss_history s) \<and> \<not> 5 dvd e)"
    unfolding sv by (auto simp: dvd_eq_mod_eq_0)
  have sp: "early_stopping_spec (Inr s) batch_losses sched epochs patience min_delta"
    using spec unfolding s .
  have all: "saved s = map (\<lambda>e. (''model_latest.pth'', e))
                      (filter (\<lambda>e. e mod 5 \<noteq> 0) [0 ..< nat epochs])"
    if none: "\<forall>k. Suc k < nat epochs \<longrightarrow>
             \<not> patience_exhausted (mean_loss batch_losses) min_delta patience k"
  proof -
    from sp have le: "length (loss_history s) \<le> nat epochs"
      and iff: "(length (loss_history s) < nat epochs)
         = (\<exists>k \<in> {..< nat epochs}. Suc k < nat epochs
              \<and> patience_exhausted (mean_loss batch_losses) min_delta patience k)"
      by (simp_all add: early_stopping_spec_def Let_def)
    from iff none have "\<not> length (loss_history s) < nat epochs" by blast
    with le have "length (loss_history s) = nat epochs" by simp
    with sv show ?thesis by simp
  qed
  from s sp sv mem all show ?thesis
    unfolding train_model_LDC_Unet_def by blast
qed

text \<open>
  Seven epochs of falling loss, so that all seven run: checkpoints after epochs 1, 2, 3,
  4 and 6, none after epochs 0 and 5.
\<close>

theorem train_model_LDC_Unet_checkpoints_witness:
  "map_sum id saved (train_model_LDC_Unet (\<lambda>e. [10 - real e]) (Some 0) 7 3 0)
     = Inr [(''model_latest.pth'', 1), (''model_latest.pth'', 2), (''model_latest.pth'', 3),
            (''model_latest.pth'', 4), (''model_latest.pth'', 6)]
   \<and> map_sum id loss_history (train_model_LDC_Unet (\<lambda>e. [10 - real e]) (Some 0) 7 3 0)
     = Inr [10, 9, 8, 7, 6, 5, 4]
   \<and> (\<exists>s. train_model_LDC_Unet (\<lambda>e. [10 - real e]) (Some 0) 7 3 0 = Inr s
     \<and> early_stopping_spec (Inr s) (\<lambda>e. [10 - real e]) (Some 0) 7 3 0
     \<and> saved s = map (\<lambda>e. (''model_latest.pth'', e))
                    (filter (\<lambda>e. e mod 5 \<noteq> 0) [0 ..< length (loss_history s)])
     \<and> (\<forall>e. ((''model_latest.pth'', e) \<in> set (saved s))
              = (e < length (loss_history s) \<and> \<not> 5 dvd e))
     \<and> ((\<forall>k. Suc k < nat 7 \<longrightarrow>
             \<not> patience_exhausted (mean_loss (\<lambda>e. [10 - real e])) 0 3 k) \<longrightarrow>
          saved s = map (\<lambda>e. (''model_latest.pth'', e))
                      (filter (\<lambda>e. e mod 5 \<noteq> 0) [0 ..< nat 7])))"
proof (intro conjI)
  have run: "train_model_LDC_Unet (\<lambda>e. [10 - real e]) (Some 0) 7 3 0
    = Inr \<lparr>loss_history = [10, 9, 8, 7, 6, 5, 4], best_loss = Some 4, patience_counter = 0,
           scheduler = Some 7,
           saved = [(''model_latest.pth'', 1), (''model_latest.pth'', 2),
                    (''model_latest.pth'', 3), (''model_latest.pth'', 4),
                    (''model_latest.pth'', 6)]\<rparr>"
    by (simp add: train_model_LDC_Unet_def py_range_def initial_state_def upt_rec
        epoch_avg_loss_def improves_def scheduler_step_def)
  show "map_sum id saved (train_model_LDC_Unet (\<lambda>e. [10 - real e]) (Some 0) 7 3 0)
     = Inr [(''model_latest.pth'', 1), (''model_latest.pth'', 2), (''model_latest.pth'', 3),
            (''model_latest.pth'', 4), (''model_latest.pth'', 6)]"
    by (simp add: run)
  show "map_sum id loss_history (train_model_LDC_Unet (\<lambda>e. [10 - real e]) (Some 0) 7 3 0)
     = Inr [10, 9, 8, 7, 6, 5, 4]"
    by (simp add: run)
  show "\<exists>s. train_model_LDC_Unet (\<lambda>e. [10 - real e]) (Some 0) 7 3 0 = Inr s
     \<and> early_stopping_spec (Inr s) (\<lambda>e. [10 - real e]) (Some 0) 7 3 0
     \<and> saved s = map (\<lambda>e. (''model_latest.pth'', e))
                    (filter (\<lambda>e. e mod 5 \<noteq> 0) [0 ..< length (loss_history s)])
     \<and> (\<forall>e. ((''model_latest.pth'', e) \<in> set (saved s))
              = (e < length (loss_history s) \<and> \<not> 5 dvd e))
     \<and> ((\<forall>k. Suc k < nat 7 \<longrightarrow>
             \<not> patience_exhausted (mean_loss (\<lambda>e. [10 - real e])) 0 3 k) \<longrightarrow>
          saved s = map (\<lambda>e. (''model_latest.pth'', e))
                      (filter (\<lambda>e. e mod 5 \<noteq> 0) [0 ..< nat 7]))"
    by (rule train_model_LDC_Unet_checkpoints) simp
qed

section \<open>The normalised confusion matrices: rows and row sums\<close>

lemma sum_indicator_distinct:
  "distinct ls \<Longrightarrow> p \<in> set ls \<Longrightarrow> (\<Sum>b\<leftarrow>ls. if b = p then 1 else 0) = (1::nat)"
  by (induction ls) auto

lemma row_count:
  assumes "distinct ls" 
  shows "length ts = length ps \<Longrightarrow> set ps \<subseteq> set ls \<Longrightarrow>
    (\<Sum>b\<leftarrow>ls. length (filter (\<lambda>tp. tp = (a, b)) (zip ts ps))) = length (filter (\<lambda>t. t = a) ts)"
proof (induction ts ps rule: list_induct2)
  case Nil
  then show ?case by simp
next
  case (Cons t ts p ps)
  have split: "(\<Sum>b\<leftarrow>ls. length (filter (\<lambda>tp. tp = (a, b)) (zip (t # ts) (p # ps))))
     = (\<Sum>b\<leftarrow>ls. (if t = a \<and> b = p then 1 else 0)) + (\<Sum>b\<leftarrow>ls. length (filter (\<lambda>tp. tp = (a, b)) (zip ts ps)))"
    by (simp add: sum_list_addf[symmetric]) (rule arg_cong[where f=sum_list], auto)
  have one: "(\<Sum>b\<leftarrow>ls. (if t = a \<and> b = p then 1 else 0)) = (if t = a then (1::nat) else 0)"
    using sum_indicator_distinct[OF assms, of p] Cons.prems by auto
  show ?case
    using Cons split one by simp
qed

lemma sum_list_divided:
  "sum_list (map (\<lambda>c. real c / S) row) = (sum_list (map real row)) / S"
  by (induction row) (simp_all add: add_divide_distrib)

lemma filter_zip_card:
  assumes "length ts = length ps"
  shows "length (filter (\<lambda>tp. tp = (a, b)) (zip ts ps)) = count_pairs ts ps a b"
proof -
  have "{i. i < length (zip ts ps) \<and> zip ts ps ! i = (a, b)}
      = {k. k < length ts \<and> ts ! k = a \<and> ps ! k = b}"
    using assms by auto
  then show ?thesis
    by (simp add: length_filter_conv_card count_pairs_def)
qed

lemma filter_card: "length (filter (\<lambda>t. t = a) ts) = count_true ts a"
  by (simp add: length_filter_conv_card count_true_def)


lemma real_sum_list: "sum_list (map real xs) = real (sum_list xs)"
  by (induction xs) simp_all

lemma classes_of_unique_labels: "classes_of y_true y_pred = unique_labels y_true y_pred"
proof -
  have "set y_true \<union> set y_pred = set (y_true @ y_pred)" by simp
  then show ?thesis
    unfolding classes_of_def unique_labels_def
    by (simp only: sorted_list_of_set_sort_remdups)
qed

text \<open>
  Claim C9, as amended. \<^verbatim>\<open>display_confusion_matrix\<close> and \<^verbatim>\<open>evaluate_model\<close> divide
  every row of the confusion matrix by the sum of that row. For label lists of equal
  length that are not empty, when every class that occurs among the true or the
  predicted labels occurs at least once as a true label: the matrix has one row and one
  column per class, every row sum is the number of samples of the class and is nonzero,
  and no division yields \<^verbatim>\<open>nan\<close> or \<^verbatim>\<open>inf\<close>. The entry for the true class \<open>a\<close> and
  the predicted class \<open>b\<close> is the share of the samples of \<open>a\<close> that are predicted as
  \<open>b\<close>, times 100, and every row sums to 100 in exact arithmetic; in
  \<^verbatim>\<open>display_confusion_matrix\<close> of the CWD-TFA notebook, which does not multiply by 100,
  the entry is the share itself and every row sums to 1.
\<close>

theorem confusion_matrix_normalised:
  assumes len: "length y_true = length y_pred"
    and ne: "y_true \<noteq> []"
    and sub: "set y_pred \<subseteq> set y_true"
  shows "\<exists>cm. confusion_matrix y_true y_pred = Inr cm
    \<and> cm = map (\<lambda>a. map (count_pairs y_true y_pred a) (classes_of y_true y_pred))
              (classes_of y_true y_pred)
    \<and> length cm = card (set y_true)
    \<and> map sum_list cm = map (count_true y_true) (classes_of y_true y_pred)
    \<and> (\<forall>a \<in> set (classes_of y_true y_pred). count_true y_true a \<noteq> 0)
    \<and> cm_normalized cm
        = map (\<lambda>a. map (\<lambda>b. Some (share y_true y_pred a b * 100)) (classes_of y_true y_pred))
            (classes_of y_true y_pred)
    \<and> (\<forall>a \<in> set (classes_of y_true y_pred).
          (\<Sum>b\<leftarrow>classes_of y_true y_pred. share y_true y_pred a b * 100) = 100)
    \<and> cm_normalized_CWD_TFA cm
        = map (\<lambda>a. map (\<lambda>b. Some (share y_true y_pred a b)) (classes_of y_true y_pred))
            (classes_of y_true y_pred)
    \<and> (\<forall>a \<in> set (classes_of y_true y_pred).
          (\<Sum>b\<leftarrow>classes_of y_true y_pred. share y_true y_pred a b) = 1)"
proof -
  let ?L = "classes_of y_true y_pred"
  let ?cm = "map (\<lambda>a. map (count_pairs y_true y_pred a) ?L) ?L"
  have L: "?L = unique_labels y_true y_pred" by (rule classes_of_unique_labels)
  have dL: "distinct ?L" by (simp add: classes_of_def)
  have setL: "set ?L = set y_true" using sub by (auto simp: classes_of_def)
  have run: "confusion_matrix y_true y_pred = Inr ?cm"
    using len ne
    by (simp add: confusion_matrix_def Let_def L[symmetric] filter_zip_card[OF len])
  have lencm: "length ?cm = card (set y_true)"
    using distinct_card[OF dL] setL by simp
  have rowsum: "sum_list (map (count_pairs y_true y_pred a) ?L) = count_true y_true a" for a
  proof -
    have "(\<Sum>b\<leftarrow>?L. length (filter (\<lambda>tp. tp = (a, b)) (zip y_true y_pred)))
        = length (filter (\<lambda>t. t = a) y_true)"
      by (rule row_count[OF dL len]) (use sub setL in simp)
    then show ?thesis
      by (simp add: filter_zip_card[OF len] filter_card)
  qed
  have sums: "map sum_list ?cm = map (count_true y_true) ?L"
    by (simp add: comp_def rowsum)
  have pos: "count_true y_true a \<noteq> 0" if "a \<in> set ?L" for a
  proof -
    from that setL have "a \<in> set y_true" by simp
    then have "filter (\<lambda>t. t = a) y_true \<noteq> []" by (simp add: filter_empty_conv)
    then have "length (filter (\<lambda>t. t = a) y_true) \<noteq> 0" by simp
    then show ?thesis unfolding filter_card .
  qed
  have norm_row: "map (\<lambda>b. map_option (\<lambda>q. q * 100)
          (np_divide (real (count_pairs y_true y_pred a b))
             (real (sum_list (map (count_pairs y_true y_pred a) ?L))))) ?L
      = map (\<lambda>b. Some (share y_true y_pred a b * 100)) ?L" if "a \<in> set ?L" for a
    using pos[OF that] by (simp add: rowsum np_divide_def share_def)
  have norm_row1: "map (\<lambda>b. np_divide (real (count_pairs y_true y_pred a b))
             (real (sum_list (map (count_pairs y_true y_pred a) ?L)))) ?L
      = map (\<lambda>b. Some (share y_true y_pred a b)) ?L" if "a \<in> set ?L" for a
    using pos[OF that] by (simp add: rowsum np_divide_def share_def)
  have n100: "cm_normalized ?cm = map (\<lambda>a. map (\<lambda>b. Some (share y_true y_pred a b * 100)) ?L) ?L"
    unfolding cm_normalized_def map_map comp_def
    by (rule map_cong[OF refl]) (rule norm_row)
  have n1: "cm_normalized_CWD_TFA ?cm = map (\<lambda>a. map (\<lambda>b. Some (share y_true y_pred a b)) ?L) ?L"
    unfolding cm_normalized_CWD_TFA_def map_map comp_def
    by (rule map_cong[OF refl]) (rule norm_row1)
  have tot1: "(\<Sum>b\<leftarrow>?L. share y_true y_pred a b) = 1" if "a \<in> set ?L" for a
  proof -
    have "(\<Sum>b\<leftarrow>?L. share y_true y_pred a b)
       = sum_list (map (\<lambda>c. real c / real (count_true y_true a)) (map (count_pairs y_true y_pred a) ?L))"
      by (simp add: share_def comp_def)
    also have "\<dots> = sum_list (map real (map (count_pairs y_true y_pred a) ?L)) / real (count_true y_true a)"
      by (rule sum_list_divided)
    also have "sum_list (map real (map (count_pairs y_true y_pred a) ?L))
       = real (sum_list (map (count_pairs y_true y_pred a) ?L))"
      by (rule real_sum_list)
    finally show ?thesis using pos[OF that] by (simp add: rowsum)
  qed
  have tot100: "(\<Sum>b\<leftarrow>?L. share y_true y_pred a b * 100) = 100" if "a \<in> set ?L" for a
  proof -
    have "(\<Sum>b\<leftarrow>?L. share y_true y_pred a b * 100) = (\<Sum>b\<leftarrow>?L. share y_true y_pred a b) * 100"
      by (simp add: sum_list_mult_const)
    then show ?thesis using tot1[OF that] by simp
  qed
  show ?thesis
    by (intro exI[of _ ?cm] conjI ballI run refl lencm sums pos n100 tot100 n1 tot1)
qed


text \<open>
  Three samples of two classes: the rows are 0, 100 and 50, 50, and 0, 1 and
  1/2, 1/2 without the factor.
\<close>

theorem confusion_matrix_normalised_witness:
  "confusion_matrix [0, 1, 1] [1, 1, 0] = Inr [[0, 1], [1, 1]]
   \<and> cm_normalized [[0, 1], [1, 1]] = [[Some 0, Some 100], [Some 50, Some 50]]
   \<and> cm_normalized_CWD_TFA [[0, 1], [1, 1]] = [[Some 0, Some 1], [Some (1 / 2), Some (1 / 2)]]
   \<and> (\<exists>cm. confusion_matrix [0, 1, 1] [1, 1, 0] = Inr cm
    \<and> cm = map (\<lambda>a. map (count_pairs [0, 1, 1] [1, 1, 0] a) (classes_of [0, 1, 1] [1, 1, 0]))
              (classes_of [0, 1, 1] [1, 1, 0])
    \<and> length cm = card (set [0, 1, 1 :: int])
    \<and> map sum_list cm = map (count_true [0, 1, 1]) (classes_of [0, 1, 1] [1, 1, 0])
    \<and> (\<forall>a \<in> set (classes_of [0, 1, 1] [1, 1, 0]). count_true [0, 1, 1] a \<noteq> 0)
    \<and> cm_normalized cm
        = map (\<lambda>a. map (\<lambda>b. Some (share [0, 1, 1] [1, 1, 0] a b * 100)) (classes_of [0, 1, 1] [1, 1, 0]))
            (classes_of [0, 1, 1] [1, 1, 0])
    \<and> (\<forall>a \<in> set (classes_of [0, 1, 1] [1, 1, 0]).
          (\<Sum>b\<leftarrow>classes_of [0, 1, 1] [1, 1, 0]. share [0, 1, 1] [1, 1, 0] a b * 100) = 100)
    \<and> cm_normalized_CWD_TFA cm
        = map (\<lambda>a. map (\<lambda>b. Some (share [0, 1, 1] [1, 1, 0] a b)) (classes_of [0, 1, 1] [1, 1, 0]))
            (classes_of [0, 1, 1] [1, 1, 0])
    \<and> (\<forall>a \<in> set (classes_of [0, 1, 1] [1, 1, 0]).
          (\<Sum>b\<leftarrow>classes_of [0, 1, 1] [1, 1, 0]. share [0, 1, 1] [1, 1, 0] a b) = 1))"
proof (intro conjI)
  show "confusion_matrix [0, 1, 1] [1, 1, 0] = Inr [[0, 1], [1, 1]]"
    by (simp add: confusion_matrix_def unique_labels_def)
  show "cm_normalized [[0, 1], [1, 1]] = [[Some 0, Some 100], [Some 50, Some 50]]"
    by (simp add: cm_normalized_def np_divide_def)
  show "cm_normalized_CWD_TFA [[0, 1], [1, 1]] = [[Some 0, Some 1], [Some (1 / 2), Some (1 / 2)]]"
    by (simp add: cm_normalized_CWD_TFA_def np_divide_def)
  show "\<exists>cm. confusion_matrix [0, 1, 1] [1, 1, 0] = Inr cm
    \<and> cm = map (\<lambda>a. map (count_pairs [0, 1, 1] [1, 1, 0] a) (classes_of [0, 1, 1] [1, 1, 0]))
              (classes_of [0, 1, 1] [1, 1, 0])
    \<and> length cm = card (set [0, 1, 1 :: int])
    \<and> map sum_list cm = map (count_true [0, 1, 1]) (classes_of [0, 1, 1] [1, 1, 0])
    \<and> (\<forall>a \<in> set (classes_of [0, 1, 1] [1, 1, 0]). count_true [0, 1, 1] a \<noteq> 0)
    \<and> cm_normalized cm
        = map (\<lambda>a. map (\<lambda>b. Some (share [0, 1, 1] [1, 1, 0] a b * 100)) (classes_of [0, 1, 1] [1, 1, 0]))
            (classes_of [0, 1, 1] [1, 1, 0])
    \<and> (\<forall>a \<in> set (classes_of [0, 1, 1] [1, 1, 0]).
          (\<Sum>b\<leftarrow>classes_of [0, 1, 1] [1, 1, 0]. share [0, 1, 1] [1, 1, 0] a b * 100) = 100)
    \<and> cm_normalized_CWD_TFA cm
        = map (\<lambda>a. map (\<lambda>b. Some (share [0, 1, 1] [1, 1, 0] a b)) (classes_of [0, 1, 1] [1, 1, 0]))
            (classes_of [0, 1, 1] [1, 1, 0])
    \<and> (\<forall>a \<in> set (classes_of [0, 1, 1] [1, 1, 0]).
          (\<Sum>b\<leftarrow>classes_of [0, 1, 1] [1, 1, 0]. share [0, 1, 1] [1, 1, 0] a b) = 1)"
    by (rule confusion_matrix_normalised) simp_all
qed

text \<open>
  The claim as worded fails for \<^verbatim>\<open>display_confusion_matrix\<close> of the CWD-TFA notebook:
  for the same three samples its rows sum to 1, not to 100.
\<close>

theorem confusion_matrix_rows_counterexample:
  "confusion_matrix [0, 1, 1] [1, 1, 0] = Inr [[0, 1], [1, 1]]
   \<and> set [1, 1, 0 :: int] \<subseteq> set [0, 1, 1]
   \<and> cm_normalized_CWD_TFA [[0, 1], [1, 1]] = [[Some 0, Some 1], [Some (1 / 2), Some (1 / 2)]]
   \<and> \<not> rows_sum_to_100_as_claimed (cm_normalized_CWD_TFA [[0, 1], [1, 1]])"
  by (simp add: confusion_matrix_def unique_labels_def cm_normalized_CWD_TFA_def np_divide_def
      rows_sum_to_100_as_claimed_def row_total_def)

section \<open>The arrays \<open>X\<close> and \<open>y\<close>\<close>

lemma append_spectros_ok:
  "set ks \<subseteq> fst ` set sp \<Longrightarrow>
   append_spectros label sp ks acc
     = Inr (fst acc @ map (\<lambda>k. the (map_of sp k)) ks, snd acc @ replicate (length ks) label)"
proof (induction ks arbitrary: acc)
  case Nil
  then show ?case by simp
next
  case (Cons k ks)
  then obtain a where a: "map_of sp k = Some a"
    by (cases "map_of sp k") (auto simp: map_of_eq_None_iff)
  show ?case using Cons by (simp add: a replicate_app_Cons_same)
qed

lemma map_insort_key: "map f (insort_key f x xs) = insort (f x) (map f xs)"
  by (induction xs) auto

lemma map_sort_key: "map f (sort_key f xs) = sort (map f xs)"
  by (induction xs) (auto simp: map_insort_key)

lemma lookup_sorted_keys:
  assumes "distinct (map fst sp)"
  shows "map (\<lambda>k. the (map_of sp k)) (sort (map fst sp)) = map snd (sort_key fst sp)"
proof -
  have "sort (map fst sp) = map fst (sort_key fst sp)" by (simp add: map_sort_key)
  moreover have "map (\<lambda>k. the (map_of sp k)) (map fst (sort_key fst sp)) = map snd (sort_key fst sp)"
    using assms by (auto simp: comp_def)
  ultimately show ?thesis by simp
qed

lemma append_spectros_entry:
  assumes "distinct (map fst sp)"
  shows "append_spectros label sp (sort (map fst sp)) acc
     = Inr (fst acc @ map fst (labelled_in_key_order (label, sp)),
            snd acc @ map snd (labelled_in_key_order (label, sp)))"
proof -
  have "append_spectros label sp (sort (map fst sp)) acc
     = Inr (fst acc @ map (\<lambda>k. the (map_of sp k)) (sort (map fst sp)),
            snd acc @ replicate (length (sort (map fst sp))) label)"
    by (rule append_spectros_ok) simp
  moreover have "map fst (labelled_in_key_order (label, sp)) = map snd (sort_key fst sp)"
    by (simp add: labelled_in_key_order_def comp_def case_prod_beta)
  moreover have "map snd (labelled_in_key_order (label, sp)) = replicate (length sp) label"
    by (simp add: labelled_in_key_order_def comp_def case_prod_beta map_replicate_const)
  ultimately show ?thesis
    using lookup_sorted_keys[OF assms] by simp
qed

lemma convert_items_ok:
  "\<forall>entry \<in> set d. distinct (map fst (snd entry)) \<Longrightarrow>
   convert_items d acc
     = Inr (fst acc @ map fst (concat (map labelled_in_key_order d)),
            snd acc @ map snd (concat (map labelled_in_key_order d)))"
proof (induction d arbitrary: acc)
  case Nil
  then show ?case by simp
next
  case (Cons entry d)
  obtain label sp where e: "entry = (label, sp)" by (cases entry)
  have dist: "distinct (map fst sp)" using Cons.prems e by simp
  show ?case
    using Cons by (simp add: e append_spectros_entry[OF dist] and_then_def)
qed

lemma labelled_member:
  assumes "distinct (map fst (snd entry))" "(a, l) \<in> set (labelled_in_key_order entry)"
  shows "l = fst entry \<and> (\<exists>idx. map_of (snd entry) idx = Some a)"
proof -
  from assms(2) obtain idx where "(idx, a) \<in> set (snd entry)" "l = fst entry"
    by (auto simp: labelled_in_key_order_def)
  then show ?thesis using assms(1) by (auto intro: map_of_is_SomeI)
qed

text \<open>
  Claim C8. For a dictionary whose spectrograms have one shape,
  \<^verbatim>\<open>convert_spectrogram_dict_to_xy\<close> returns \<open>X\<close> and \<open>y\<close> of equal length \<open>N\<close>, the
  total number of spectrograms of all labels; \<open>y[i]\<close> is a label under which \<open>X[i]\<close>
  is stored; and the pairs \<open>(X[i], y[i])\<close> are, label after label, the spectrograms of
  the label in ascending order of their integer keys.
\<close>

theorem convert_spectrogram_dict_to_xy_labels:
  assumes keys: "\<forall>entry \<in> set data_dict. distinct (map fst (snd entry))"
    and shapes: "\<forall>entry \<in> set data_dict. \<forall>p \<in> set (snd entry). np_shape (snd p) = shp"
  shows "\<exists>X y. convert_spectrogram_dict_to_xy data_dict = Inr (X, y)
    \<and> length X = length y
    \<and> length X = sum_list (map (\<lambda>entry. length (snd entry)) data_dict)
    \<and> zip X y = concat (map labelled_in_key_order data_dict)
    \<and> (\<forall>i<length X. \<exists>spectros idx.
           (y ! i, spectros) \<in> set data_dict \<and> map_of spectros idx = Some (X ! i))
    \<and> (\<forall>entry \<in> set data_dict. sorted_wrt (<) (map fst (sort_key fst (snd entry))))"
proof -
  let ?zs = "concat (map labelled_in_key_order data_dict)"
  let ?X = "map fst ?zs" and ?y = "map snd ?zs"
  have items: "convert_items data_dict ([], []) = Inr (?X, ?y)"
    using convert_items_ok[OF keys, of "([], [])"] by simp
  have shp: "np_shape a = shp" if "a \<in> set ?X" for a
    using that shapes by (fastforce simp: labelled_in_key_order_def)
  have stack: "np_array ?X = Inr ?X"
  proof (cases "?X = []")
    case True
    then show ?thesis by (simp add: np_array_def)
  next
    case False
    then have "hd ?X \<in> set ?X" by (rule hd_in_set)
    then show ?thesis using shp by (simp add: np_array_def)
  qed
  have run: "convert_spectrogram_dict_to_xy data_dict = Inr (?X, ?y)"
    by (simp add: convert_spectrogram_dict_to_xy_def items stack and_then_def)
  have len: "length ?X = sum_list (map (\<lambda>entry. length (snd entry)) data_dict)"
    by (simp add: length_concat comp_def labelled_in_key_order_def)
  have zip: "zip ?X ?y = ?zs" by (simp add: zip_map_fst_snd)
  have stored: "\<exists>spectros idx. (?y ! i, spectros) \<in> set data_dict \<and> map_of spectros idx = Some (?X ! i)"
    if "i < length ?X" for i
  proof -
    from that have "i < length ?zs" by simp
    then have "?zs ! i \<in> set ?zs" by (rule nth_mem)
    then obtain entry where en: "entry \<in> set data_dict" "?zs ! i \<in> set (labelled_in_key_order entry)"
      by auto
    have "(?X ! i, ?y ! i) = ?zs ! i" using that by simp
    with en(2) have "(?X ! i, ?y ! i) \<in> set (labelled_in_key_order entry)" by simp
    from labelled_member[OF _ this] keys en(1)
    have "?y ! i = fst entry" "\<exists>idx. map_of (snd entry) idx = Some (?X ! i)" by auto
    with en(1) show ?thesis by (metis prod.collapse)
  qed
  have srt: "sorted_wrt (<) (map fst (sort_key fst (snd entry)))" if "entry \<in> set data_dict" for entry
    using keys that by (simp add: strict_sorted_iff map_sort_key)
  show ?thesis
    using run len zip stored srt by (intro exI[of _ ?X] exI[of _ ?y]) simp
qed

text \<open>Two labels, the keys of the first one stored out of order.\<close>

theorem convert_spectrogram_dict_to_xy_labels_witness:
  "\<exists>X y. convert_spectrogram_dict_to_xy
            [(''b'', [(2::int, NDArray [1] [5]), (1, NDArray [1] [6])]), (''a'', [(0, NDArray [1] [7])])]
          = Inr (X, y)
    \<and> length X = length y
    \<and> length X = sum_list (map (\<lambda>entry. length (snd entry))
        [(''b'', [(2::int, NDArray [1] [5]), (1, NDArray [1] [6])]), (''a'', [(0, NDArray [1] [7])])])
    \<and> zip X y = concat (map labelled_in_key_order
        [(''b'', [(2::int, NDArray [1] [5]), (1, NDArray [1] [6])]), (''a'', [(0, NDArray [1] [7])])])
    \<and> (\<forall>i<length X. \<exists>spectros idx.
           (y ! i, spectros) \<in> set
             [(''b'', [(2::int, NDArray [1] [5]), (1, NDArray [1] [6])]), (''a'', [(0, NDArray [1] [7])])]
           \<and> map_of spectros idx = Some (X ! i))
    \<and> (\<forall>entry \<in> set
          [(''b'', [(2::int, NDArray [1] [5]), (1, NDArray [1] [6])]), (''a'', [(0, NDArray [1] [7])])].
          sorted_wrt (<) (map fst (sort_key fst (snd entry))))"
  by (rule convert_spectrogram_dict_to_xy_labels[where shp = "[1]"]) simp_all

section \<open>Failed loads\<close>

lemma endswith_suffix: "endswith f s = suffix s f"
proof
  assume "endswith f s"
  then have "drop (length f - length s) f = s" by (simp add: endswith_def)
  then have "f = take (length f - length s) f @ s" by (metis append_take_drop_id)
  then show "suffix s f" unfolding suffix_def by blast
next
  assume "suffix s f"
  then obtain zs where "f = zs @ s" unfolding suffix_def by blast
  then show "endswith f s" by (simp add: endswith_def)
qed

lemma foldl_update_map_of:
  "map_of (foldl (\<lambda>d kv. AList.update (fst kv) (snd kv) d) d0 kvs) = map_of (rev kvs @ d0)"
proof (induction kvs arbitrary: d0)
  case Nil
  show ?case by simp
next
  case (Cons kv kvs)
  have "map_of (rev kvs @ AList.update (fst kv) (snd kv) d0) = map_of (rev kvs @ kv # d0)"
    unfolding map_of_append by (cases kv) (simp add: update_conv')
  then show ?case by (simp add: Cons.IH)
qed

lemma foldl_update_distinct:
  "distinct (map fst d0) \<Longrightarrow> distinct (map fst (foldl (\<lambda>d kv. AList.update (fst kv) (snd kv) d) d0 kvs))"
  by (induction kvs arbitrary: d0) (simp_all add: distinct_update)

lemma read_keys_snd:
  "snd (read_keys ev items sp0)
     = foldl (\<lambda>d kv. AList.update (fst kv) (snd kv) d) sp0
         (List.map_filter (item_read ev) (takeWhile (\<lambda>it. item_error ev it = None) items))"
proof (induction items arbitrary: sp0)
  case Nil
  show ?case by (simp add: map_filter_simps)
next
  case (Cons it items)
  obtain key item where it: "it = (key, item)" by (cases it)
  show ?case
    by (cases "py_int ev key"; cases item)
       (simp_all add: it item_error_def item_read_def map_filter_simps Cons.IH)
qed

lemma read_keys_fst:
  "fst (read_keys ev items sp0)
     = (case dropWhile (\<lambda>it. item_error ev it = None) items of
          [] \<Rightarrow> None
        | it # rest \<Rightarrow> item_error ev it)"
proof (induction items arbitrary: sp0)
  case Nil
  show ?case by simp
next
  case (Cons it items)
  obtain key item where it: "it = (key, item)" by (cases it)
  show ?case
    by (cases "py_int ev key"; cases item)
       (simp_all add: it item_error_def Cons.IH)
qed

lemma load_file_eq:
  "load_file ev mod_path st file
     = (AList.update (mod_name_of file)
          (foldl (\<lambda>d kv. AList.update (fst kv) (snd kv) d) []
             (items_before_failure ev (path_join ev mod_path file)))
          (fst st),
        snd st @ failure_line ev (path_join ev mod_path file))"
proof (cases "h5py_File ev (path_join ev mod_path file)")
  case (Inl e)
  show ?thesis
    by (simp add: load_file_def Let_def Inl mod_name_of_def items_before_failure_def
        failure_line_def first_failure_def)
next
  case (Inr h5f)
  obtain r sp where rk: "read_keys ev h5f [] = (r, sp)" by (cases "read_keys ev h5f []")
  from read_keys_snd[of ev h5f "[]"] rk
  have sp: "sp = foldl (\<lambda>d kv. AList.update (fst kv) (snd kv) d) []
         (List.map_filter (item_read ev) (takeWhile (\<lambda>it. item_error ev it = None) h5f))"
    by simp
  from read_keys_fst[of ev h5f "[]"] rk
  have r: "r = (case dropWhile (\<lambda>it. item_error ev it = None) h5f of
          [] \<Rightarrow> None
        | it # rest \<Rightarrow> item_error ev it)"
    by simp
  have ff: "first_failure ev (path_join ev mod_path file) = r"
    by (simp add: first_failure_def Inr r)
  have ib: "items_before_failure ev (path_join ev mod_path file)
      = List.map_filter (item_read ev) (takeWhile (\<lambda>it. item_error ev it = None) h5f)"
    by (simp add: items_before_failure_def Inr)
  show ?thesis
    unfolding ib sp[symmetric] failure_line_def ff
    by (cases r) (simp_all add: load_file_def Let_def Inr rk mod_name_of_def)
qed


lemma load_files_eq:
  "foldl (load_file ev mod_path) st files
     = (foldl (\<lambda>d kv. AList.update (fst kv) (snd kv) d) (fst st)
          (map (\<lambda>pf. (mod_name_of (snd pf),
                       foldl (\<lambda>d kv. AList.update (fst kv) (snd kv) d) []
                         (items_before_failure ev (path_join ev (fst pf) (snd pf)))))
               (map (\<lambda>f. (mod_path, f)) files)),
        snd st @ concat (map (\<lambda>f. failure_line ev (path_join ev mod_path f)) files))"
  by (induction files arbitrary: st) (simp_all add: load_file_eq)

lemma load_mod_type_eq:
  assumes "\<forall>e. path_entry ev (path_join ev root_folder mt) \<noteq> ListdirFails e"
  shows "load_mod_type ev root_folder st mt
     = Inr (foldl (\<lambda>d kv. AList.update (fst kv) (snd kv) d) (fst st)
              (map (\<lambda>pf. (mod_name_of (snd pf),
                       foldl (\<lambda>d kv. AList.update (fst kv) (snd kv) d) []
                         (items_before_failure ev (path_join ev (fst pf) (snd pf)))))
                   (reached_files ev root_folder [mt])),
            snd st @ printed ev root_folder [mt])"
proof (cases "path_entry ev (path_join ev root_folder mt)")
  case Missing
  show ?thesis
    by (simp add: load_mod_type_def Let_def Missing reached_files_def h5_files_def printed_def)
next
  case (ListdirFails e)
  with assms show ?thesis by simp
next
  case (Directory names)
  have ends: "(\<lambda>f. endswith f ''.h5'') = suffix ''.h5''"
    by (rule ext) (rule endswith_suffix)
  show ?thesis
    by (simp add: load_mod_type_def Let_def Directory reached_files_def h5_files_def printed_def
        load_files_eq ends)
qed

lemma reached_files_Cons:
  "reached_files ev root_folder (mt # mts)
     = reached_files ev root_folder [mt] @ reached_files ev root_folder mts"
  by (simp add: reached_files_def)

lemma printed_Cons:
  "printed ev root_folder (mt # mts) = printed ev root_folder [mt] @ printed ev root_folder mts"
  by (simp add: printed_def)

lemma load_mod_types_eq:
  "\<forall>mt \<in> set mts. \<forall>e. path_entry ev (path_join ev root_folder mt) \<noteq> ListdirFails e \<Longrightarrow>
   load_mod_types ev root_folder mts st
     = Inr (foldl (\<lambda>d kv. AList.update (fst kv) (snd kv) d) (fst st)
              (map (\<lambda>pf. (mod_name_of (snd pf),
                       foldl (\<lambda>d kv. AList.update (fst kv) (snd kv) d) []
                         (items_before_failure ev (path_join ev (fst pf) (snd pf)))))
                   (reached_files ev root_folder mts)),
            snd st @ printed ev root_folder mts)"
proof (induction mts arbitrary: st)
  case Nil
  show ?case by (simp add: reached_files_def printed_def)
next
  case (Cons mt mts)
  from Cons.prems have 1: "\<forall>e. path_entry ev (path_join ev root_folder mt) \<noteq> ListdirFails e"
    and 2: "\<forall>mt \<in> set mts. \<forall>e. path_entry ev (path_join ev root_folder mt) \<noteq> ListdirFails e"
    by simp_all
  show ?case
    unfolding reached_files_Cons[of ev root_folder mt mts] printed_Cons[of ev root_folder mt mts]
    by (simp add: load_mod_type_eq[OF 1] Cons.IH[OF 2] and_then_def)
qed

lemma load_spectrogram_h5s_eq:
  assumes "\<forall>mt \<in> set mts. \<forall>e. path_entry ev (path_join ev root_folder mt) \<noteq> ListdirFails e"
  shows "load_spectrogram_h5s ev root_folder mts
     = Inr (foldl (\<lambda>d kv. AList.update (fst kv) (snd kv) d) []
              (map (\<lambda>pf. (mod_name_of (snd pf),
                       foldl (\<lambda>d kv. AList.update (fst kv) (snd kv) d) []
                         (items_before_failure ev (path_join ev (fst pf) (snd pf)))))
                   (reached_files ev root_folder mts)),
            printed ev root_folder mts)"
  by (simp add: load_spectrogram_h5s_def load_mod_types_eq[OF assms])

lemma printed_failure:
  assumes pf: "pf \<in> set (reached_files ev root_folder mts)"
    and e: "first_failure ev (path_join ev (fst pf) (snd pf)) = Some e"
  shows "Failed_to_load (path_join ev (fst pf) (snd pf)) e \<in> set (printed ev root_folder mts)"
proof -
  from pf obtain mt f where mt: "mt \<in> set mts" and f: "f \<in> set (h5_files ev (path_join ev root_folder mt))"
    and pf': "pf = (path_join ev root_folder mt, f)"
    unfolding reached_files_def by auto
  from f obtain names where d: "path_entry ev (path_join ev root_folder mt) = Directory names"
    by (cases "path_entry ev (path_join ev root_folder mt)") (simp_all add: h5_files_def)
  have "Failed_to_load (path_join ev (path_join ev root_folder mt) f) e
      \<in> set (failure_line ev (path_join ev (path_join ev root_folder mt) f))"
    using e by (simp add: failure_line_def pf')
  with f have "Failed_to_load (path_join ev (path_join ev root_folder mt) f) e
      \<in> set (printed ev root_folder [mt])"
    by (auto simp: printed_def d)
  with mt show ?thesis
    unfolding pf' by (auto simp: printed_def)
qed

lemma map_of_last_named:
  assumes "\<forall>q \<in> set after. fst (g q) \<noteq> fst (g pf)"
  shows "map_of (rev (map g (before @ pf # after))) (fst (g pf)) = Some (snd (g pf))"
proof -
  have "fst (g pf) \<notin> dom (map_of (rev (map g after)))"
    using assms by (auto simp: dom_map_of_conv_image_fst)
  then show ?thesis
    by (simp add: map_add_dom_app_simps)
qed

lemma map_of_without:
  "n \<noteq> fst (g pf) \<Longrightarrow>
   map_of (rev (map g (filter (\<lambda>q. q \<noteq> pf) xs))) n = map_of (rev (map g xs)) n"
  by (induction xs) (auto simp: map_add_def split: option.splits)

lemma reached_files_without:
  "reached_files (without_file ev mod_path file) root_folder mts
     = filter (\<lambda>q. q \<noteq> (mod_path, file)) (reached_files ev root_folder mts)"
proof (induction mts)
  case Nil
  show ?case by (simp add: reached_files_def)
next
  case (Cons mt mts)
  have pj: "path_join (without_file ev mod_path file) = path_join ev"
    by (simp add: without_file_def)
  have "reached_files (without_file ev mod_path file) root_folder [mt]
     = filter (\<lambda>q. q \<noteq> (mod_path, file)) (reached_files ev root_folder [mt])"
    by (cases "path_entry ev (path_join ev root_folder mt)")
       (auto simp: reached_files_def h5_files_def without_file_def filter_map comp_def conj_commute)
  with Cons.IH show ?case
    unfolding reached_files_Cons[of _ root_folder mt mts] by simp
qed

lemma items_before_failure_without:
  "items_before_failure (without_file ev mod_path file) p = items_before_failure ev p"
proof -
  have 1: "item_read (without_file ev mod_path file) = item_read ev"
    by (rule ext) (simp add: item_read_def without_file_def)
  have 2: "item_error (without_file ev mod_path file) = item_error ev"
    by (rule ext) (simp add: item_error_def without_file_def)
  have 3: "h5py_File (without_file ev mod_path file) = h5py_File ev"
    by (simp add: without_file_def)
  show ?thesis
    unfolding items_before_failure_def 1 2 3 ..
qed

lemma without_file_dirs:
  assumes "\<forall>e. path_entry ev p \<noteq> ListdirFails e"
  shows "\<forall>e. path_entry (without_file ev mod_path file) p \<noteq> ListdirFails e"
  using assms by (cases "path_entry ev p") (simp_all add: without_file_def)


text \<open>
  Claim C4, as amended. Whatever exceptions opening or reading \<^verbatim>\<open>.h5\<close> files raises,
  \<^verbatim>\<open>load_spectrogram_h5s\<close> returns normally (as long as \<^verbatim>\<open>os.listdir\<close> succeeds on the
  directories that exist), and what it returns and prints is this:

    \<^item> what is printed is, for each modulation type in turn, the warning or the
      announcement and then one line for each file whose load met an exception; so each
      such exception is printed with the path of its file, and the loop goes on;
    \<^item> the dictionary has exactly one entry for each name \<^verbatim>\<open>file[:-3]\<close> of a file
      reached, failed or not;
    \<^item> the entry of a name holds what the load of the last file reached under that name
      stored: the spectrograms of the keys before the exception if there was one (none
      when the file could not be opened), all of them otherwise; a later item with the
      same index replaces the earlier one. Nothing is rolled back, and nothing of a file
      of the same name reached earlier is kept;
    \<^item> the entries under all other names are what they are without the file.
\<close>

theorem load_spectrogram_h5s_failed_load:
  assumes dirs: "\<forall>mod_type \<in> set mod_types. \<forall>e.
      path_entry ev (path_join ev root_folder mod_type) \<noteq> ListdirFails e"
  shows "\<exists>d out. load_spectrogram_h5s ev root_folder mod_types = Inr (d, out)
    \<and> out = printed ev root_folder mod_types
    \<and> (\<forall>pf \<in> set (reached_files ev root_folder mod_types). \<forall>e.
          first_failure ev (path_join ev (fst pf) (snd pf)) = Some e \<longrightarrow>
            Failed_to_load (path_join ev (fst pf) (snd pf)) e \<in> set out)
    \<and> distinct (map fst d)
    \<and> set (map fst d) = (\<lambda>pf. mod_name_of (snd pf)) ` set (reached_files ev root_folder mod_types)
    \<and> (\<forall>before mod_path file after.
          reached_files ev root_folder mod_types = before @ (mod_path, file) # after
          \<and> (\<forall>pf \<in> set after. mod_name_of (snd pf) \<noteq> mod_name_of file) \<longrightarrow>
            (\<exists>sp. map_of d (mod_name_of file) = Some sp
               \<and> distinct (map fst sp)
               \<and> map_of sp = map_of (rev (items_before_failure ev (path_join ev mod_path file)))))
    \<and> (\<forall>pf \<in> set (reached_files ev root_folder mod_types).
          \<exists>d' out'. load_spectrogram_h5s (without_file ev (fst pf) (snd pf)) root_folder mod_types = Inr (d', out')
            \<and> (\<forall>n. n \<noteq> mod_name_of (snd pf) \<longrightarrow> map_of d n = map_of d' n))"
proof -
  let ?U = "\<lambda>d kv. AList.update (fst kv) (snd kv) d"
  let ?g = "\<lambda>pf. (mod_name_of (snd pf),
                foldl ?U [] (items_before_failure ev (path_join ev (fst pf) (snd pf))))"
  let ?rf = "reached_files ev root_folder mod_types"
  define d where "d = foldl ?U [] (map ?g ?rf)"
  define out where "out = printed ev root_folder mod_types"
  have run: "load_spectrogram_h5s ev root_folder mod_types = Inr (d, out)"
    unfolding d_def out_def by (rule load_spectrogram_h5s_eq[OF dirs])
  have md: "map_of d = map_of (rev (map ?g ?rf))"
    unfolding d_def foldl_update_map_of by simp
  have a: "Failed_to_load (path_join ev (fst pf) (snd pf)) e \<in> set out"
    if "pf \<in> set ?rf" "first_failure ev (path_join ev (fst pf) (snd pf)) = Some e" for pf e
    unfolding out_def using that by (rule printed_failure)
  have b: "distinct (map fst d)"
    unfolding d_def by (rule foldl_update_distinct) simp
  have "fst ` set d = dom (map_of d)"
    by (simp add: dom_map_of_conv_image_fst)
  also have "\<dots> = fst ` set (rev (map ?g ?rf))"
    unfolding md by (rule dom_map_of_conv_image_fst)
  also have "\<dots> = (\<lambda>pf. mod_name_of (snd pf)) ` set ?rf"
    by (simp add: image_image)
  finally have c: "set (map fst d) = (\<lambda>pf. mod_name_of (snd pf)) ` set ?rf"
    by simp
  have e: "\<exists>sp. map_of d (mod_name_of f) = Some sp
               \<and> distinct (map fst sp)
               \<and> map_of sp = map_of (rev (items_before_failure ev (path_join ev mod_path f)))"
    if h: "?rf = before @ (mod_path, f) # after
          \<and> (\<forall>pf \<in> set after. mod_name_of (snd pf) \<noteq> mod_name_of f)"
    for before mod_path f after
  proof -
    let ?sp = "foldl ?U [] (items_before_failure ev (path_join ev mod_path f))"
    from h have rf: "?rf = before @ (mod_path, f) # after"
      and af: "\<forall>q \<in> set after. fst (?g q) \<noteq> fst (?g (mod_path, f))"
      by simp_all
    have "map_of d (mod_name_of f) = Some ?sp"
      unfolding md rf using map_of_last_named[of after ?g "(mod_path, f)" before, OF af]
      by simp
    moreover have "distinct (map fst ?sp)"
      by (rule foldl_update_distinct) simp
    moreover have "map_of ?sp = map_of (rev (items_before_failure ev (path_join ev mod_path f)))"
      unfolding foldl_update_map_of by simp
    ultimately show ?thesis by blast
  qed
  have f: "\<exists>d' out'. load_spectrogram_h5s (without_file ev (fst pf) (snd pf)) root_folder mod_types
              = Inr (d', out')
            \<and> (\<forall>n. n \<noteq> mod_name_of (snd pf) \<longrightarrow> map_of d n = map_of d' n)"
    if "pf \<in> set ?rf" for pf
  proof -
    let ?ev' = "without_file ev (fst pf) (snd pf)"
    have pj: "path_join ?ev' = path_join ev" by (simp add: without_file_def)
    have dirs': "\<forall>mod_type \<in> set mod_types. \<forall>e.
        path_entry ?ev' (path_join ?ev' root_folder mod_type) \<noteq> ListdirFails e"
      unfolding pj using dirs without_file_dirs by blast
    define d' where "d' = foldl ?U [] (map ?g (filter (\<lambda>q. q \<noteq> pf) ?rf))"
    have "load_spectrogram_h5s ?ev' root_folder mod_types
        = Inr (d', printed ?ev' root_folder mod_types)"
      unfolding d'_def
      using load_spectrogram_h5s_eq[OF dirs']
      by (simp add: reached_files_without items_before_failure_without pj)
    moreover have "map_of d n = map_of d' n" if "n \<noteq> mod_name_of (snd pf)" for n
    proof -
      from that have "n \<noteq> fst (?g pf)" by simp
      from map_of_without[of n ?g pf ?rf, OF this] show ?thesis
        unfolding md d'_def foldl_update_map_of by simp
    qed
    ultimately show ?thesis by blast
  qed
  show ?thesis
  proof (intro exI[of _ d] exI[of _ out] conjI)
    show "load_spectrogram_h5s ev root_folder mod_types = Inr (d, out)" by (rule run)
    show "out = printed ev root_folder mod_types" by (rule out_def)
    show "\<forall>pf \<in> set ?rf. \<forall>e.
          first_failure ev (path_join ev (fst pf) (snd pf)) = Some e \<longrightarrow>
            Failed_to_load (path_join ev (fst pf) (snd pf)) e \<in> set out"
      by (intro ballI allI impI) (rule a)
    show "distinct (map fst d)" by (rule b)
    show "set (map fst d) = (\<lambda>pf. mod_name_of (snd pf)) ` set ?rf" by (rule c)
    show "\<forall>before mod_path file after.
          ?rf = before @ (mod_path, file) # after
          \<and> (\<forall>pf \<in> set after. mod_name_of (snd pf) \<noteq> mod_name_of file) \<longrightarrow>
            (\<exists>sp. map_of d (mod_name_of file) = Some sp
               \<and> distinct (map fst sp)
               \<and> map_of sp = map_of (rev (items_before_failure ev (path_join ev mod_path file))))"
      by (intro allI impI) (rule e)
    show "\<forall>pf \<in> set ?rf.
          \<exists>d' out'. load_spectrogram_h5s (without_file ev (fst pf) (snd pf)) root_folder mod_types
              = Inr (d', out')
            \<and> (\<forall>n. n \<noteq> mod_name_of (snd pf) \<longrightarrow> map_of d n = map_of d' n)"
      by (intro ballI) (rule f)
  qed
qed

text \<open>
  In the small world, the entry of \<^verbatim>\<open>a.h5\<close> stays empty, the entry of \<^verbatim>\<open>c.h5\<close> keeps
  the spectrogram read before the failure, both failures are printed, and \<^verbatim>\<open>b.h5\<close> is
  loaded in between.
\<close>

theorem load_spectrogram_h5s_failed_load_witness:
  "load_spectrogram_h5s example_env ''root'' [''FM'', ''PM'']
     = Inr ([(''a'', []), (''b'', [(0, NDArray [1] [1])]), (''c'', [(0, NDArray [1] [2])])],
            [Loading_from ''FM'', Failed_to_load ''root/FM/a.h5'' OSError,
             Failed_to_load ''root/FM/c.h5'' ValueError, Warning_missing ''root/PM''])
   \<and> reached_files example_env ''root'' [''FM'', ''PM'']
        = [(''root/FM'', ''a.h5''), (''root/FM'', ''b.h5''), (''root/FM'', ''c.h5'')]
   \<and> first_failure example_env ''root/FM/a.h5'' = Some OSError
   \<and> first_failure example_env ''root/FM/b.h5'' = None
   \<and> first_failure example_env ''root/FM/c.h5'' = Some ValueError
   \<and> items_before_failure example_env ''root/FM/c.h5'' = [(0, NDArray [1] [2])]
   \<and> (\<exists>d out. load_spectrogram_h5s example_env ''root'' [''FM'', ''PM''] = Inr (d, out)
    \<and> out = printed example_env ''root'' [''FM'', ''PM'']
    \<and> (\<forall>pf \<in> set (reached_files example_env ''root'' [''FM'', ''PM'']). \<forall>e.
          first_failure example_env (path_join example_env (fst pf) (snd pf)) = Some e \<longrightarrow>
            Failed_to_load (path_join example_env (fst pf) (snd pf)) e \<in> set out)
    \<and> distinct (map fst d)
    \<and> set (map fst d) = (\<lambda>pf. mod_name_of (snd pf)) ` set (reached_files example_env ''root'' [''FM'', ''PM''])
    \<and> (\<forall>before mod_path file after.
          reached_files example_env ''root'' [''FM'', ''PM''] = before @ (mod_path, file) # after
          \<and> (\<forall>pf \<in> set after. mod_name_of (snd pf) \<noteq> mod_name_of file) \<longrightarrow>
            (\<exists>sp. map_of d (mod_name_of file) = Some sp
               \<and> distinct (map fst sp)
               \<and> map_of sp = map_of (rev (items_before_failure example_env (path_join example_env mod_path file)))))
    \<and> (\<forall>pf \<in> set (reached_files example_env ''root'' [''FM'', ''PM'']).
          \<exists>d' out'. load_spectrogram_h5s (without_file example_env (fst pf) (snd pf)) ''root'' [''FM'', ''PM''] = Inr (d', out')
            \<and> (\<forall>n. n \<noteq> mod_name_of (snd pf) \<longrightarrow> map_of d n = map_of d' n)))"
proof (intro conjI)
  show "load_spectrogram_h5s example_env ''root'' [''FM'', ''PM'']
     = Inr ([(''a'', []), (''b'', [(0, NDArray [1] [1])]), (''c'', [(0, NDArray [1] [2])])],
            [Loading_from ''FM'', Failed_to_load ''root/FM/a.h5'' OSError,
             Failed_to_load ''root/FM/c.h5'' ValueError, Warning_missing ''root/PM''])"
    by (simp add: load_spectrogram_h5s_def load_mod_type_def load_file_def example_env_def
        and_then_def endswith_def Let_def)
next
  show "reached_files example_env ''root'' [''FM'', ''PM'']
        = [(''root/FM'', ''a.h5''), (''root/FM'', ''b.h5''), (''root/FM'', ''c.h5'')]"
    by (simp add: reached_files_def h5_files_def example_env_def suffix_def)
next
  show "first_failure example_env ''root/FM/a.h5'' = Some OSError"
    by (simp add: first_failure_def example_env_def)
next
  show "first_failure example_env ''root/FM/b.h5'' = None"
    by (simp add: first_failure_def item_error_def example_env_def)
next
  show "first_failure example_env ''root/FM/c.h5'' = Some ValueError"
    by (simp add: first_failure_def item_error_def example_env_def)
next
  show "items_before_failure example_env ''root/FM/c.h5'' = [(0, NDArray [1] [2])]"
    by (simp add: items_before_failure_def item_error_def item_read_def example_env_def
        map_filter_simps)
next
  show "\<exists>d out. load_spectrogram_h5s example_env ''root'' [''FM'', ''PM''] = Inr (d, out)
    \<and> out = printed example_env ''root'' [''FM'', ''PM'']
    \<and> (\<forall>pf \<in> set (reached_files example_env ''root'' [''FM'', ''PM'']). \<forall>e.
          first_failure example_env (path_join example_env (fst pf) (snd pf)) = Some e \<longrightarrow>
            Failed_to_load (path_join example_env (fst pf) (snd pf)) e \<in> set out)
    \<and> distinct (map fst d)
    \<and> set (map fst d) = (\<lambda>pf. mod_name_of (snd pf)) ` set (reached_files example_env ''root'' [''FM'', ''PM''])
    \<and> (\<forall>before mod_path file after.
          reached_files example_env ''root'' [''FM'', ''PM''] = before @ (mod_path, file) # after
          \<and> (\<forall>pf \<in> set after. mod_name_of (snd pf) \<noteq> mod_name_of file) \<longrightarrow>
            (\<exists>sp. map_of d (mod_name_of file) = Some sp
               \<and> distinct (map fst sp)
               \<and> map_of sp = map_of (rev (items_before_failure example_env (path_join example_env mod_path file)))))
    \<and> (\<forall>pf \<in> set (reached_files example_env ''root'' [''FM'', ''PM'']).
          \<exists>d' out'. load_spectrogram_h5s (without_file example_env (fst pf) (snd pf)) ''root'' [''FM'', ''PM''] = Inr (d', out')
            \<and> (\<forall>n. n \<noteq> mod_name_of (snd pf) \<longrightarrow> map_of d n = map_of d' n))"
    by (rule load_spectrogram_h5s_failed_load) (simp add: example_env_def)
qed

lemma same_name_reached:
  "reached_files same_name_env ''root'' [''FM'', ''PM'']
     = [(''root/FM'', ''a.h5''), (''root/PM'', ''a.h5'')]"
  by (simp add: reached_files_def h5_files_def same_name_env_def suffix_def)

lemma same_name_run:
  "load_spectrogram_h5s same_name_env ''root'' [''FM'', ''PM'']
     = Inr ([(''a'', [])],
            [Loading_from ''FM'', Loading_from ''PM'', Failed_to_load ''root/PM/a.h5'' OSError])"
  by (simp add: load_spectrogram_h5s_def load_mod_type_def load_file_def same_name_env_def
      and_then_def endswith_def Let_def)

lemma same_name_run_without:
  "load_spectrogram_h5s (without_file same_name_env ''root/PM'' ''a.h5'') ''root'' [''FM'', ''PM'']
     = Inr ([(''a'', [(0, NDArray [1] [1])])], [Loading_from ''FM'', Loading_from ''PM''])"
  by (simp add: load_spectrogram_h5s_def load_mod_type_def load_file_def same_name_env_def
      without_file_def and_then_def endswith_def Let_def)

text \<open>
  The claim as worded leaves the entries of the other files as they are. With a file
  \<^verbatim>\<open>a.h5\<close> in both directories, \<^verbatim>\<open>root/FM/a.h5\<close> is loaded with its spectrogram, and
  the load of \<^verbatim>\<open>root/PM/a.h5\<close>, which cannot be opened, resets the entry \<^verbatim>\<open>a\<close> that
  the two files share: the dictionary returned has lost the spectrogram that it holds
  without \<^verbatim>\<open>root/PM/a.h5\<close>.
\<close>

theorem load_spectrogram_h5s_same_name_counterexample:
  "load_spectrogram_h5s same_name_env ''root'' [''FM'', ''PM'']
     = Inr ([(''a'', [])],
            [Loading_from ''FM'', Loading_from ''PM'', Failed_to_load ''root/PM/a.h5'' OSError])
   \<and> load_spectrogram_h5s (without_file same_name_env ''root/PM'' ''a.h5'') ''root'' [''FM'', ''PM'']
     = Inr ([(''a'', [(0, NDArray [1] [1])])], [Loading_from ''FM'', Loading_from ''PM''])
   \<and> first_failure same_name_env ''root/FM/a.h5'' = None
   \<and> first_failure same_name_env ''root/PM/a.h5'' = Some OSError
   \<and> \<not> failed_load_as_claimed same_name_env ''root'' [''FM'', ''PM'']"
proof (intro conjI)
  show "first_failure same_name_env ''root/FM/a.h5'' = None"
    by (simp add: first_failure_def item_error_def same_name_env_def)
next
  show ff: "first_failure same_name_env ''root/PM/a.h5'' = Some OSError"
    by (simp add: first_failure_def same_name_env_def)
  have pj: "path_join same_name_env ''root/PM'' ''a.h5'' = ''root/PM/a.h5''"
    by (simp add: same_name_env_def)
  show "\<not> failed_load_as_claimed same_name_env ''root'' [''FM'', ''PM'']"
  proof
    assume c: "failed_load_as_claimed same_name_env ''root'' [''FM'', ''PM'']"
    have PM: "(''root/PM'', ''a.h5'') \<in> set (reached_files same_name_env ''root'' [''FM'', ''PM''])"
      and FM: "(''root/FM'', ''a.h5'') \<in> set (reached_files same_name_env ''root'' [''FM'', ''PM''])"
      by (simp_all add: same_name_reached)
    have ff': "first_failure same_name_env
        (path_join same_name_env (fst (''root/PM'', ''a.h5'')) (snd (''root/PM'', ''a.h5''))) = Some OSError"
      using ff pj by simp
    from c[unfolded failed_load_as_claimed_def, rule_format, OF PM ff']
    obtain d out d' out' where
      1: "load_spectrogram_h5s same_name_env ''root'' [''FM'', ''PM''] = Inr (d, out)"
      and 2: "load_spectrogram_h5s (without_file same_name_env ''root/PM'' ''a.h5'') ''root'' [''FM'', ''PM'']
                 = Inr (d', out')"
      and 3: "\<forall>other \<in> set (reached_files same_name_env ''root'' [''FM'', ''PM'']).
                other \<noteq> (''root/PM'', ''a.h5'') \<longrightarrow>
                   map_of d (mod_name_of (snd other)) = map_of d' (mod_name_of (snd other))"
      by auto
    from 1 have d: "d = [(''a'', [])]" unfolding same_name_run by simp
    from 2 have d': "d' = [(''a'', [(0, NDArray [1] [1])])]" unfolding same_name_run_without by simp
    from 3[rule_format, OF FM] show False
      unfolding d d' by (simp add: mod_name_of_def)
  qed
qed (rule same_name_run, rule same_name_run_without)

section \<open>The type checks of \<^verbatim>\<open>prepare_dataloader\<close>\<close>











section \<open>The value of \<^verbatim>\<open>SSRLoss\<close>\<close>

lemma index_rows_list_ok:
  "\<forall>l \<in> set labels. 0 \<le> l \<and> l < int (nrows t) \<Longrightarrow>
   index_rows_list t labels = Inr (map (\<lambda>l. rows_of t ! nat l) labels)"
  by (induction labels) (simp_all add: index_row_def and_then_def Let_def)

lemma sum_list_concat_nth:
  "sum_list (concat xss) = (\<Sum>i<length xss. sum_list (xss ! i))"
proof (induction xss rule: rev_induct)
  case Nil
  show ?case by simp
next
  case (snoc xs xss)
  then show ?case by (simp add: nth_append)
qed

lemma sum_list_nth: "sum_list xs = (\<Sum>j<length xs. xs ! j)" for xs :: "real list"
  by (simp add: sum_list_sum_nth atLeast0LessThan)


lemma mean_abs_rows:
  fixes F C :: "real list list"
  assumes wf: "length F = n" "\<forall>r \<in> set F. length r = d"
    and len: "length labels = n"
    and cw: "\<forall>l \<in> set labels. length (C ! nat l) = d"
  shows "sum_list (concat (map (map abs) (map2 (\<lambda>r s. map2 (-) r s) F (map (\<lambda>l. C ! nat l) labels))))
     = (\<Sum>i<n. \<Sum>j<d. \<bar>F ! i ! j - C ! nat (labels ! i) ! j\<bar>)"
proof -
  let ?D = "map (map abs) (map2 (\<lambda>r s. map2 (-) r s) F (map (\<lambda>l. C ! nat l) labels))"
  have lenD: "length ?D = n" using wf(1) len by simp
  have row: "sum_list (?D ! i) = (\<Sum>j<d. \<bar>F ! i ! j - C ! nat (labels ! i) ! j\<bar>)" if i: "i < n" for i
  proof -
    have Fi: "length (F ! i) = d" using wf i by simp
    have Ci: "length (C ! nat (labels ! i)) = d" using cw len i by simp
    have Di: "?D ! i = map abs (map2 (-) (F ! i) (C ! nat (labels ! i)))"
      using i wf(1) len by simp
    have "length (?D ! i) = d" unfolding Di using Fi Ci by simp
    then have "sum_list (?D ! i) = (\<Sum>j<d. ?D ! i ! j)"
      using sum_list_nth[of "?D ! i"] by simp
    also have "\<dots> = (\<Sum>j<d. \<bar>F ! i ! j - C ! nat (labels ! i) ! j\<bar>)"
      unfolding Di using Fi Ci by (intro sum.cong) simp_all
    finally show ?thesis .
  qed
  have "sum_list (concat ?D) = (\<Sum>i<length ?D. sum_list (?D ! i))"
    by (rule sum_list_concat_nth)
  also have "\<dots> = (\<Sum>i<n. sum_list (?D ! i))" using lenD by simp
  also have "\<dots> = (\<Sum>i<n. \<Sum>j<d. \<bar>F ! i ! j - C ! nat (labels ! i) ! j\<bar>)"
    by (intro sum.cong refl row) simp
  finally show ?thesis .
qed

text \<open>
  Claim C1. For features of shape \<open>(N, D)\<close> with \<open>N, D > 0\<close>, \<open>N\<close> labels that are
  class indices, and centers of shape \<open>(C, D)\<close>, \<^verbatim>\<open>SSRLoss.forward\<close> returns the sum of
  the cross-entropy \<open>ce\<close> of the logits against the labels and \<open>lambda_reg\<close> times the mean
  absolute difference between the feature vector of each sample and the center of the
  class that labels it; \<open>lambda_reg\<close> is 0.12 when the constructor is not given one.
\<close>

theorem SSRLoss_forward_value:
  assumes ce: "cross_entropy logits labels = Inr (Some ce)"
    and wf: "well_shaped features" "well_shaped (centers self)"
    and n: "nrows features = length labels" "0 < nrows features"
    and d: "ncols features = ncols (centers self)" "0 < ncols features"
    and lb: "\<forall>l \<in> set labels. 0 \<le> l \<and> l < int (nrows (centers self))"
  shows "SSRLoss_forward cross_entropy self features labels logits
           = Inr (Some (ce + lambda_reg self * mean_abs_to_center (centers self) features labels))
       \<and> lambda_reg (SSRLoss_init n_classes f_dim None randn) = 0.12"
proof -
  let ?C = "rows_of (centers self)"
  let ?N = "nrows features" and ?D = "ncols features"
  let ?cb = "Tensor2 (length labels) (ncols (centers self)) (map (\<lambda>l. ?C ! nat l) labels)"
  have idx: "index_rows (centers self) labels = Inr ?cb"
    using index_rows_list_ok[OF lb] by (simp add: index_rows_def and_then_def)
  let ?rows = "map2 (\<lambda>r s. map2 (-) r s) (rows_of features) (map (\<lambda>l. ?C ! nat l) labels)"
  have cw: "\<forall>l \<in> set labels. length (?C ! nat l) = ?D"
  proof
    fix l assume "l \<in> set labels"
    with lb have "nat l < nrows (centers self)" by auto
    then have "?C ! nat l \<in> set ?C" using wf(2) by (simp add: well_shaped_def)
    then show "length (?C ! nat l) = ?D" using wf(2) d(1) by (simp add: well_shaped_def)
  qed
  have ex1: "expand_to ?N (rows_of features) = rows_of features"
    using wf(1) by (simp add: expand_to_def well_shaped_def)
  have ex2: "expand_to ?N (map (\<lambda>l. ?C ! nat l) labels) = map (\<lambda>l. ?C ! nat l) labels"
    using n(1) by (simp add: expand_to_def)
  have rows_eq: "map2 (\<lambda>r s. map2 (-) (expand_to ?D r) (expand_to ?D s))
        (rows_of features) (map (\<lambda>l. ?C ! nat l) labels) = ?rows"
  proof (rule map_cong[OF refl])
    fix p assume p: "p \<in> set (zip (rows_of features) (map (\<lambda>l. ?C ! nat l) labels))"
    obtain r s where rs: "p = (r, s)" by (cases p)
    from p rs have "r \<in> set (rows_of features)" "s \<in> set (map (\<lambda>l. ?C ! nat l) labels)"
      by (auto dest: set_zip_leftD set_zip_rightD)
    then have "length r = ?D" "length s = ?D"
      using wf(1) cw by (auto simp: well_shaped_def)
    then show "(case p of (r, s) \<Rightarrow> map2 (-) (expand_to ?D r) (expand_to ?D s))
       = (case p of (r, s) \<Rightarrow> map2 (-) r s)"
      by (simp add: rs expand_to_def)
  qed
  have bd1: "broadcast_dim ?N (length labels) = Inr ?N"
    using n(1) by (simp add: broadcast_dim_def)
  have bd2: "broadcast_dim ?D (ncols (centers self)) = Inr ?D"
    using d(1) by (simp add: broadcast_dim_def)
  have sub: "tensor_sub features ?cb = Inr (Tensor2 ?N ?D ?rows)"
    by (simp add: tensor_sub_def and_then_def bd1 bd2 ex1 ex2 rows_eq)
  have pos: "?N * ?D \<noteq> 0" using n(2) d(2) by simp
  have tot: "sum_list (concat (map (map abs) ?rows))
     = (\<Sum>i<?N. \<Sum>j<?D. \<bar>rows_of features ! i ! j - ?C ! nat (labels ! i) ! j\<bar>)"
    by (rule mean_abs_rows) (use wf(1) n(1) cw in \<open>simp_all add: well_shaped_def\<close>)
  have mean: "tensor_mean (tensor_abs (Tensor2 ?N ?D ?rows))
     = Some (mean_abs_to_center (centers self) features labels)"
  proof -
    have "tensor_mean (Tensor2 ?N ?D (map (map abs) ?rows))
       = Some (sum_list (concat (map (map abs) ?rows)) / real (?N * ?D))"
      using pos by (simp only: tensor_mean_def tensor2.sel if_False)
    then show ?thesis
      by (simp only: tensor_abs_def tensor2.sel tot mean_abs_to_center_def)
  qed
  have "SSRLoss_forward cross_entropy self features labels logits
           = Inr (Some (ce + lambda_reg self * mean_abs_to_center (centers self) features labels))"
    by (simp add: SSRLoss_forward_def ce idx sub mean and_then_def fl_mul_def fl_add_def Let_def)
  moreover have "lambda_reg (SSRLoss_init n_classes f_dim None randn) = 0.12"
    by (simp add: SSRLoss_init_def)
  ultimately show ?thesis by simp
qed

text \<open>
  Three samples of two features, classes 0, 1, 1, centers \<open>(0, 0)\<close> and \<open>(1, 1)\<close>, a
  cross-entropy of 1: the absolute differences add up to 17, their mean is 17/6, and the
  loss is \<open>1 + 0.12 * 17/6 = 1.34\<close>.
\<close>

theorem SSRLoss_forward_value_witness:
  "SSRLoss_forward (\<lambda>lg lb. Inr (Some 1)) (SSRLoss_init 2 2 None [[0, 0], [1, 1]])
       (Tensor2 3 2 [[1, 2], [3, 4], [5, 6]]) [0, 1, 1] (Tensor2 3 2 [[1, 2], [3, 4], [5, 6]])
     = Inr (Some (67 / 50))
   \<and> lambda_reg (SSRLoss_init 2 2 None [[0, 0], [1, 1]]) = 0.12
   \<and> mean_abs_to_center (centers (SSRLoss_init 2 2 None [[0, 0], [1, 1]]))
        (Tensor2 3 2 [[1, 2], [3, 4], [5, 6]]) [0, 1, 1] = 17 / 6"
proof -
  have "SSRLoss_forward (\<lambda>lg lb. Inr (Some 1)) (SSRLoss_init 2 2 None [[0, 0], [1, 1]])
       (Tensor2 3 2 [[1, 2], [3, 4], [5, 6]]) [0, 1, 1] (Tensor2 3 2 [[1, 2], [3, 4], [5, 6]])
     = Inr (Some (1 + lambda_reg (SSRLoss_init 2 2 None [[0, 0], [1, 1]])
                * mean_abs_to_center (centers (SSRLoss_init 2 2 None [[0, 0], [1, 1]]))
                    (Tensor2 3 2 [[1, 2], [3, 4], [5, 6]]) [0, 1, 1]))
     \<and> lambda_reg (SSRLoss_init 2 2 None [[0, 0], [1, 1]]) = 0.12"
    by (rule SSRLoss_forward_value) (simp_all add: well_shaped_def SSRLoss_init_def)
  moreover have m: "mean_abs_to_center (centers (SSRLoss_init 2 2 None [[0, 0], [1, 1]]))
        (Tensor2 3 2 [[1, 2], [3, 4], [5, 6]]) [0, 1, 1] = 17 / 6"
    by (simp add: mean_abs_to_center_def SSRLoss_init_def lessThan_Suc eval_nat_numeral)
  moreover have "lambda_reg (SSRLoss_init 2 2 None [[0, 0], [1, 1]]) = 12 / 100"
    by (simp add: SSRLoss_init_def)
  ultimately show ?thesis by simp
qed

section \<open>The output of \<^verbatim>\<open>pre_processing\<close>\<close>

lemma normalise_Finite:
  assumes "xs \<noteq> []" "variance xs \<noteq> 0"
  shows "normalise (Finite (NDArray shp xs)) = Finite (NDArray shp (subtract_mean_divide_by_variance xs))"
  using assms
  by (simp add: normalise_def np_mean_def np_var_def variance_def subtract_mean_divide_by_variance_def)

lemma normalise_pow_Finite:
  "arithmetic_defined n xs \<Longrightarrow>
   (normalise ^^ n) (Finite (NDArray shp xs))
     = Finite (NDArray shp ((subtract_mean_divide_by_variance ^^ n) xs))"
proof (induction n arbitrary: xs)
  case 0
  show ?case by simp
next
  case (Suc n)
  then have a: "xs \<noteq> []" "variance xs \<noteq> 0"
     "arithmetic_defined n (subtract_mean_divide_by_variance xs)" by simp_all
  show ?case
    by (simp add: funpow_Suc_right normalise_Finite[OF a(1,2)] Suc.IH[OF a(3)] del: funpow.simps)
qed

lemma normalise_shape: "processed_shape (normalise p) = processed_shape p"
  by (cases p) (auto simp: normalise_def processed_shape_def split: option.splits)

lemma normalise_pow_shape: "processed_shape ((normalise ^^ n) p) = processed_shape p"
  by (induction n) (simp_all add: normalise_shape)

lemma zero_negatives_shape: "processed_shape (zero_negatives p) = processed_shape p"
  by (cases p) (simp_all add: zero_negatives_def processed_shape_def)

lemma zero_negatives_nonneg:
  "zero_negatives p = Finite a \<Longrightarrow> \<forall>x \<in> set (np_data a). 0 \<le> x"
  by (cases p) (auto simp: zero_negatives_def)

lemma process_images_map:
  "\<forall>im \<in> set images. \<exists>r. cv2_resize im t = Inr r \<Longrightarrow>
   process_images cv2_resize n t images acc
     = Inr (acc @ map (\<lambda>im. zero_negatives ((normalise ^^ n) (Finite (projr (cv2_resize im t))))) images)"
proof (induction images arbitrary: acc)
  case Nil
  show ?case by simp
next
  case (Cons im images)
  then obtain r where r: "cv2_resize im t = Inr r" by auto
  show ?case
    using Cons by (simp add: process_image_def and_then_def r)
qed


text \<open>
  Claim C7. When \<^verbatim>\<open>cv2.resize\<close> returns for every input an image of one shape whose
  spatial size is 40 x 40, the STFT-CNN \<^verbatim>\<open>pre_processing\<close> returns exactly one output
  per input, every output has spatial size 40 x 40, and no element is strictly negative
  (an element can be \<^verbatim>\<open>nan\<close> only where a division by a zero variance occurred). Where
  the arithmetic is defined, the output is the resized image from which six times the
  mean was subtracted and the result divided by the variance, with the strictly negative
  values set to zero at the end.
\<close>

theorem pre_processing_output:
  assumes resize: "\<forall>im \<in> set images. \<exists>r. cv2_resize im (40, 40) = Inr r \<and> np_shape r = shp"
    and hw: "take 2 shp = [40, 40]"
  shows "\<exists>out. pre_processing cv2_resize images = Inr out
     \<and> length out = length images
     \<and> (\<forall>p \<in> set out. take 2 (processed_shape p) = [40, 40]
            \<and> (\<forall>a. p = Finite a \<longrightarrow> (\<forall>x \<in> set (np_data a). 0 \<le> x)))
     \<and> (\<forall>i < length images. \<forall>r.
            cv2_resize (images ! i) (40, 40) = Inr r \<and> arithmetic_defined 6 (np_data r) \<longrightarrow>
            out ! i = Finite (NDArray (np_shape r)
                        (map (\<lambda>x. if x < 0 then 0 else x)
                           ((subtract_mean_divide_by_variance ^^ 6) (np_data r)))))"
proof -
  let ?f = "\<lambda>im. zero_negatives ((normalise ^^ 6) (Finite (projr (cv2_resize im (40, 40)))))"
  let ?out = "map ?f images"
  have ok: "\<forall>im \<in> set images. \<exists>r. cv2_resize im (40, 40) = Inr r"
    using resize by blast
  have loop: "process_images cv2_resize 6 (40, 40) images [] = Inr ?out"
    using process_images_map[where cv2_resize = cv2_resize and t = "(40, 40)"
        and images = images and n = 6 and acc = "[]"] ok by simp
  have shape: "processed_shape (?f im) = shp" if "im \<in> set images" for im
  proof -
    from resize that obtain r where r: "cv2_resize im (40, 40) = Inr r" "np_shape r = shp" by blast
    have "processed_shape (?f im) = processed_shape (Finite r)"
      by (simp add: r zero_negatives_shape normalise_pow_shape del: funpow.simps)
    also have "\<dots> = shp" by (simp add: processed_shape_def r)
    finally show ?thesis .
  qed
  have stack: "np_array_float32 ?out = Inr ?out"
  proof (cases "images = []")
    case True
    then show ?thesis by (simp add: np_array_float32_def)
  next
    case False
    then have "hd images \<in> set images" by simp
    then have "processed_shape (hd ?out) = shp"
      using False shape by (simp add: hd_map)
    then show ?thesis
      using shape by (simp add: np_array_float32_def)
  qed
  have run: "pre_processing cv2_resize images = Inr ?out"
    by (simp add: pre_processing_def loop stack and_then_def)
  have each: "take 2 (processed_shape p) = [40, 40]
            \<and> (\<forall>a. p = Finite a \<longrightarrow> (\<forall>x \<in> set (np_data a). 0 \<le> x))" if "p \<in> set ?out" for p
  proof -
    from that obtain im where im: "im \<in> set images" "p = ?f im" by auto
    have "take 2 (processed_shape p) = [40, 40]"
      using shape[OF im(1)] hw im(2) by simp
    moreover have "\<forall>x \<in> set (np_data a). 0 \<le> x" if "p = Finite a" for a
      using that im(2) zero_negatives_nonneg[of _ a] by metis
    ultimately show ?thesis by blast
  qed
  have formula: "?out ! i = Finite (NDArray (np_shape r)
                        (map (\<lambda>x. if x < 0 then 0 else x)
                           ((subtract_mean_divide_by_variance ^^ 6) (np_data r))))"
    if "i < length images" "cv2_resize (images ! i) (40, 40) = Inr r"
       "arithmetic_defined 6 (np_data r)" for i r
  proof -
    have "(normalise ^^ 6) (Finite (NDArray (np_shape r) (np_data r)))
       = Finite (NDArray (np_shape r) ((subtract_mean_divide_by_variance ^^ 6) (np_data r)))"
      by (rule normalise_pow_Finite[OF that(3)])
    then have "(normalise ^^ 6) (Finite r)
       = Finite (NDArray (np_shape r) ((subtract_mean_divide_by_variance ^^ 6) (np_data r)))"
      by simp
    then show ?thesis
      using that(1,2) by (simp add: zero_negatives_def)
  qed
  show ?thesis
    using run each formula by (intro exI[of _ ?out]) (simp del: funpow.simps)
qed

text \<open>One image that is already 40 x 40, which resizing leaves as it is.\<close>

theorem pre_processing_output_witness:
  "\<exists>out. pre_processing (\<lambda>im t. Inr im) [NDArray [40, 40] (replicate 1599 0 @ [1])] = Inr out
     \<and> length out = length [NDArray [40, 40] (replicate 1599 0 @ [1])]
     \<and> (\<forall>p \<in> set out. take 2 (processed_shape p) = [40, 40]
            \<and> (\<forall>a. p = Finite a \<longrightarrow> (\<forall>x \<in> set (np_data a). 0 \<le> x)))
     \<and> (\<forall>i < length [NDArray [40, 40] (replicate 1599 0 @ [1])]. \<forall>r.
            (\<lambda>im t. Inr im) ([NDArray [40, 40] (replicate 1599 0 @ [1])] ! i) (40, 40) = Inr r
              \<and> arithmetic_defined 6 (np_data r) \<longrightarrow>
            out ! i = Finite (NDArray (np_shape r)
                        (map (\<lambda>x. if x < 0 then 0 else x)
                           ((subtract_mean_divide_by_variance ^^ 6) (np_data r)))))"
proof -
  have h: "\<forall>im \<in> set [NDArray [40, 40] (replicate 1599 0 @ [1])].
      \<exists>r. (\<lambda>im t. Inr im) im (40, 40) = (Inr r :: error + ndarray) \<and> np_shape r = [40, 40]"
    by simp
  show ?thesis
    using pre_processing_output[OF h] by simp
qed

end
